theory Spec2Isabelle
  imports Main
begin

section \<open>Data model of the lobby API (src/server/api.ts)\<close>

text \<open>
  A handler either sets a response body or throws. \<open>ctx.throw(status, message)\<close> is
  \<open>Throw status message\<close>; reading a property of \<open>undefined\<close> raises a JavaScript
  TypeError, which no handler catches.
\<close>

datatype error = Throw nat string | TypeError

text \<open>
  The key of a slot in \<open>metadata.players\<close> is the decimal string of its index
  (\<open>CreateGame\<close> writes \<open>metadata.players[playerIndex]\<close>), and \<open>Object.keys\<close> lists
  such keys in ascending order. The model keeps \<open>metadata.players\<close> as the list of the
  records in key order and writes a slot key as the index itself, also where the source
  stores the key string in an array (\<open>playersID\<close>, \<open>leadersID\<close>, \<open>adminsID\<close>).
  Team identifiers are strings made by \<open>teamID.toString()\<close> and compared with a route
  parameter, so they stay strings.
\<close>

record teamData =
  td_teamID :: string
  td_leader :: bool

text \<open>
  The caller-defined \<open>data\<close> payload of a slot, as far as the handlers read or write it:
  \<open>player\<close> and \<open>admin\<close> are the truthiness of the role flags, \<open>leader\<close> and
  \<open>teamData\<close> are absent until team formation writes them.
\<close>

record pdata =
  player :: bool
  admin :: bool
  leader :: "bool option"
  teamData :: "teamData option"

record player =
  id_slot :: nat
  name :: "string option"
  credentials :: "string option"
  data :: "pdata option"

record team =
  teamID :: string
  playersID :: "nat list"

record setupData =
  teams :: "team list option"
  adminsID :: "nat list option"
  sd_playersID :: "nat list option"
  leadersID :: "nat list option"

record metadata =
  gameName :: string
  unlisted :: bool
  players :: "player list"
  setupData :: "setupData option"
  nextRoomID :: "string option"

text \<open>
  Modelled from the spec: the MetadataStore (src/server/db, not part of the sources at
  hand), a key-value record per room. \<open>fetch\<close> is application of the map,
  \<open>createGame\<close> and \<open>setMetadata\<close> store a record under the room id, \<open>wipe\<close> removes it.
  The initial game state computed by the rules engine is not represented.
  A handler returns its answer together with the store. When it raises, the store
  returned is the one it was given: the assignments it made to the fetched record before
  raising, without reaching \<open>setMetadata\<close>, are not part of the result. That a failing
  handler leaves the store as it was is therefore a statement about the code only for a
  failure raised before the first such assignment.
\<close>

type_synonym db = "string \<rightharpoonup> metadata"

text \<open>
  The fields of \<open>ctx.request.body\<close> that the handlers read. \<open>None\<close> is \<open>undefined\<close>.
  \<open>numPlayers\<close> is the value of \<open>parseInt(ctx.request.body.numPlayers)\<close>, with
  \<open>None\<close> for \<open>NaN\<close>; \<open>numOfTeams\<close> is a count.
\<close>

text \<open>
  \<open>newName\<close> is the one field whose type a handler tests: \<open>Str s\<close> is a string,
  \<open>NonStr ty\<close> a truthy value that is not a string and whose \<open>typeof\<close> is \<open>ty\<close>,
  \<open>Undefined\<close> stands for \<open>undefined\<close> and the other falsy values that are no strings.
\<close>

datatype name_field = Undefined | Str string | NonStr string

record body =
  playerID :: "nat option"
  playerName :: "string option"
  newName :: name_field
  body_credentials :: "string option"
  body_data :: "pdata option"
  body_setupData :: "setupData option"
  body_unlisted :: bool
  numPlayers :: "int option"
  numOfTeams :: "nat option"

definition noBody :: body where
  "noBody = \<lparr>playerID = None, playerName = None, newName = Undefined,
     body_credentials = None, body_data = None, body_setupData = None,
     body_unlisted = False, numPlayers = None, numOfTeams = None\<rparr>"

text \<open>JavaScript truthiness of an optional string: \<open>undefined\<close> and \<open>''\<close> are falsy.\<close>

definition truthy :: "string option \<Rightarrow> bool" where
  "truthy s = (case s of None \<Rightarrow> False | Some v \<Rightarrow> v \<noteq> [])"

text \<open>\<open>Number.prototype.toString()\<close> on a non-negative integer.\<close>

fun toString :: "nat \<Rightarrow> string" where
  "toString n =
     (if n < 10 then [''0123456789'' ! n]
      else toString (n div 10) @ [''0123456789'' ! (n mod 10)])"

declare toString.simps [simp del]

text \<open>The text appended for a credential in an error message.\<close>

definition showCred :: "string option \<Rightarrow> string" where
  "showCred c = (case c of None \<Rightarrow> ''undefined'' | Some s \<Rightarrow> s)"

section \<open>CreateGame\<close>

definition openSlot :: "nat \<Rightarrow> player" where
  "openSlot playerIndex =
     \<lparr>id_slot = playerIndex, name = None, credentials = None, data = None\<rparr>"

text \<open>
  \<open>game\<close> is the result of \<open>games.find\<close>, a game being known by its name; \<open>None\<close> is
  \<open>undefined\<close>, on which \<open>game.name\<close> raises. \<open>uuid\<close> is the value that
  \<open>lobbyConfig.uuid()\<close> returns at this call.
\<close>

definition CreateGame ::
  "db \<Rightarrow> string option \<Rightarrow> int option \<Rightarrow> setupData option \<Rightarrow> string \<Rightarrow> bool
     \<Rightarrow> error + (string \<times> db)" where
  "CreateGame db game numPlayers0 setupData0 uuid unlisted0 =
     (let numPlayers1 =
            (case numPlayers0 of None \<Rightarrow> 2 | Some k \<Rightarrow> if k = 0 then 2 else k)
      in case game of
           None \<Rightarrow> Inl TypeError
         | Some gname \<Rightarrow>
             let md = \<lparr>gameName = gname, unlisted = unlisted0,
                        players = map openSlot [0..<nat numPlayers1],
                        setupData = setupData0, nextRoomID = None\<rparr>
             in Inr (uuid, db(uuid \<mapsto> md)))"

section \<open>join\<close>

text \<open>\<open>playerCredentials\<close> is the value \<open>lobbyConfig.generateCredentials(ctx)\<close> returns.\<close>

definition join_handler ::
  "db \<Rightarrow> string \<Rightarrow> body \<Rightarrow> string \<Rightarrow> (error + string) \<times> db" where
  "join_handler db gameID b playerCredentials =
     (case playerID b of
        None \<Rightarrow> (Inl (Throw 403 ''playerID is required''), db)
      | Some pid \<Rightarrow>
          if \<not> truthy (playerName b) then (Inl (Throw 403 ''playerName is required''), db)
          else case db gameID of
            None \<Rightarrow> (Inl (Throw 404 (''Game '' @ gameID @ '' not found'')), db)
          | Some md \<Rightarrow>
              if \<not> pid < length (players md)
              then (Inl (Throw 404 (''Player '' @ toString pid @ '' not found'')), db)
              else if truthy (name (players md ! pid))
              then (Inl (Throw 409 (''Player '' @ toString pid @ '' not available'')), db)
              else
                let p0 = players md ! pid;
                    p1 = (case body_data b of Some d \<Rightarrow> p0\<lparr>data := Some d\<rparr> | None \<Rightarrow> p0);
                    p2 = p1\<lparr>name := playerName b\<rparr>;
                    p3 = p2\<lparr>credentials := Some playerCredentials\<rparr>;
                    md' = md\<lparr>players := (players md)[pid := p3]\<rparr>
                in (Inr playerCredentials, db(gameID \<mapsto> md')))"

section \<open>leave\<close>

definition leave_handler :: "db \<Rightarrow> string \<Rightarrow> body \<Rightarrow> (error + unit) \<times> db" where
  "leave_handler db gameID b =
     (case playerID b of
        None \<Rightarrow> (Inl (Throw 403 ''playerID is required''), db)
      | Some pid \<Rightarrow>
          case db gameID of
            None \<Rightarrow> (Inl (Throw 404 (''Game '' @ gameID @ '' not found'')), db)
          | Some md \<Rightarrow>
              if \<not> pid < length (players md)
              then (Inl (Throw 404 (''Player '' @ toString pid @ '' not found'')), db)
              else if body_credentials b \<noteq> credentials (players md ! pid)
              then (Inl (Throw 403 (''Invalid credentials '' @ showCred (body_credentials b))), db)
              else
                let p = (players md ! pid)\<lparr>name := None, credentials := None\<rparr>;
                    md' = md\<lparr>players := (players md)[pid := p]\<rparr>
                in if list_ex (\<lambda>q. truthy (name q)) (players md')
                   then (Inr (), db(gameID \<mapsto> md'))
                   else (Inr (), db(gameID := None)))"

section \<open>playAgain\<close>

text \<open>\<open>games\<close> is the list of the names of the configured games.\<close>

definition playAgain_handler ::
  "db \<Rightarrow> string list \<Rightarrow> string \<Rightarrow> string \<Rightarrow> body \<Rightarrow> string \<Rightarrow> (error + string) \<times> db" where
  "playAgain_handler db games gameName0 gameID b uuid =
     (case playerID b of
        None \<Rightarrow> (Inl (Throw 403 ''playerID is required''), db)
      | Some pid \<Rightarrow>
          case db gameID of
            None \<Rightarrow> (Inl (Throw 404 (''Game '' @ gameID @ '' not found'')), db)
          | Some md \<Rightarrow>
              if \<not> pid < length (players md)
              then (Inl (Throw 404 (''Player '' @ toString pid @ '' not found'')), db)
              else if body_credentials b \<noteq> credentials (players md ! pid)
              then (Inl (Throw 403 (''Invalid credentials '' @ showCred (body_credentials b))), db)
              else if truthy (nextRoomID md)
              then (Inr (case nextRoomID md of Some r \<Rightarrow> r | None \<Rightarrow> []), db)
              else
                let setupData1 =
                      (case body_setupData b of Some s \<Rightarrow> Some s | None \<Rightarrow> setupData md);
                    numPlayers1 =
                      (case numPlayers b of
                         None \<Rightarrow> int (length (players md))
                       | Some k \<Rightarrow> if k = 0 then int (length (players md)) else k);
                    game = find (\<lambda>g. g = gameName0) games
                in case CreateGame db game (Some numPlayers1) setupData1 uuid (body_unlisted b) of
                     Inl e \<Rightarrow> (Inl e, db)
                   | Inr (nextRoomID1, db1) \<Rightarrow>
                       (Inr nextRoomID1, db1(gameID \<mapsto> md\<lparr>nextRoomID := Some nextRoomID1\<rparr>)))"

section \<open>update (and its deprecated alias rename)\<close>

definition updatePlayerMetadata :: "db \<Rightarrow> string \<Rightarrow> body \<Rightarrow> (error + unit) \<times> db" where
  "updatePlayerMetadata db gameID b =
     (case playerID b of
        None \<Rightarrow> (Inl (Throw 403 ''playerID is required''), db)
      | Some pid \<Rightarrow>
          if body_data b = None \<and>
             (case newName b of Undefined \<Rightarrow> True | Str s \<Rightarrow> s = [] | NonStr ty \<Rightarrow> False)
          then (Inl (Throw 403 ''newName or data is required''), db)
          else case newName b of
            NonStr ty \<Rightarrow> (Inl (Throw 403 (''newName must be a string, got '' @ ty)), db)
          | _ \<Rightarrow>
          case db gameID of
            None \<Rightarrow> (Inl (Throw 404 (''Game '' @ gameID @ '' not found'')), db)
          | Some md \<Rightarrow>
              if \<not> pid < length (players md)
              then (Inl (Throw 404 (''Player '' @ toString pid @ '' not found'')), db)
              else if body_credentials b \<noteq> credentials (players md ! pid)
              then (Inl (Throw 403 (''Invalid credentials '' @ showCred (body_credentials b))), db)
              else
                let p0 = players md ! pid;
                    p1 = (case newName b of
                            Str s \<Rightarrow> if s \<noteq> [] then p0\<lparr>name := Some s\<rparr> else p0
                          | _ \<Rightarrow> p0);
                    p2 = (case body_data b of Some d \<Rightarrow> p1\<lparr>data := Some d\<rparr> | None \<Rightarrow> p1);
                    md' = md\<lparr>players := (players md)[pid := p2]\<rparr>
                in (Inr (), db(gameID \<mapsto> md')))"

section \<open>rejoin\<close>

definition RejoinGame :: "db \<Rightarrow> string \<Rightarrow> body \<Rightarrow> (error + bool) \<times> db" where
  "RejoinGame db gameID b =
     (if \<not> truthy (playerName b) then (Inl (Throw 403 ''playerName is required''), db)
      else case db gameID of
        None \<Rightarrow> (Inl (Throw 404 (''Game '' @ gameID @ '' not found'')), db)
      | Some md \<Rightarrow>
          case find (\<lambda>k. name (players md ! k) = playerName b) [0..<length (players md)] of
            None \<Rightarrow> (Inl (Throw 409 ''Player not available''), db)
          | Some pid \<Rightarrow>
              if body_credentials b \<noteq> credentials (players md ! pid)
              then (Inl (Throw 403 (''Invalid credentials '' @ showCred (body_credentials b))), db)
              else (Inr True, db(gameID \<mapsto> md)))"

section \<open>teams/create\<close>

text \<open>
  \<open>metadata.players[playerID].data\<close> followed by a property access: it raises when the
  cursor is \<open>undefined\<close>, when no slot has that key, and when the slot has no \<open>data\<close>.
\<close>

definition player_data :: "player list \<Rightarrow> nat option \<Rightarrow> error + pdata" where
  "player_data ps c =
     (case c of
        None \<Rightarrow> Inl TypeError
      | Some k \<Rightarrow>
          if k < length ps
          then (case data (ps ! k) of None \<Rightarrow> Inl TypeError | Some d \<Rightarrow> Inr d)
          else Inl TypeError)"

definition set_data :: "player list \<Rightarrow> nat \<Rightarrow> pdata \<Rightarrow> player list" where
  "set_data ps k d = ps[k := (ps ! k)\<lparr>data := Some d\<rparr>]"

text \<open>The first loop: \<open>playerArray\<close> and \<open>adminArray\<close> over \<open>Object.keys(metadata.players)\<close>.\<close>

fun scanRoles ::
  "player list \<Rightarrow> nat list \<Rightarrow> nat list \<Rightarrow> nat list \<Rightarrow> error + (nat list \<times> nat list)" where
  "scanRoles ps [] playerArray adminArray = Inr (playerArray, adminArray)"
| "scanRoles ps (k # ks) playerArray adminArray =
     (case player_data ps (Some k) of
        Inl e \<Rightarrow> Inl e
      | Inr d \<Rightarrow>
          scanRoles ps ks
            (if player d then playerArray @ [k] else playerArray)
            (if admin d then adminArray @ [k] else adminArray))"

text \<open>
  The statements that both fill loops share: an admin-flagged slot under the cursor gets
  \<open>leader = false\<close> and the cursor moves one slot on (once, not repeatedly); then the
  slot under the cursor receives its \<open>teamData\<close> and \<open>leader = false\<close>. The result is
  the updated players and the key of the slot that was assigned.
\<close>

definition assignSlot :: "player list \<Rightarrow> nat option \<Rightarrow> string \<Rightarrow> error + (player list \<times> nat)" where
  "assignSlot ps c tid =
     (case player_data ps c of
        Inl e \<Rightarrow> Inl e
      | Inr d \<Rightarrow>
          let k = (case c of Some k \<Rightarrow> k | None \<Rightarrow> 0);
              ps1 = (if admin d then set_data ps k (d\<lparr>leader := Some False\<rparr>) else ps);
              k1 = (if admin d then k + 1 else k)
          in case player_data ps1 (Some k1) of
               Inl e \<Rightarrow> Inl e
             | Inr d1 \<Rightarrow>
                 Inr (set_data ps1 k1
                        (d1\<lparr>teamData := Some \<lparr>td_teamID = tid, td_leader = False\<rparr>,
                            leader := Some False\<rparr>),
                      k1))"

text \<open>
  The inner loop \<open>for (let id = 0; id < playersInTeam; id++)\<close>; the first argument is
  the number of iterations left.
\<close>

fun fillTeam ::
  "nat \<Rightarrow> string \<Rightarrow> player list \<Rightarrow> nat option \<Rightarrow> nat list \<Rightarrow> nat list
     \<Rightarrow> error + (player list \<times> nat option \<times> nat list \<times> nat list)" where
  "fillTeam 0 tid ps c tmp_playerArray pids = Inr (ps, c, tmp_playerArray, pids)"
| "fillTeam (Suc n) tid ps c tmp_playerArray pids =
     (case assignSlot ps c tid of
        Inl e \<Rightarrow> Inl e
      | Inr (ps', k) \<Rightarrow>
          fillTeam n tid ps' (Some (k + 1)) (tmp_playerArray @ [k]) (pids @ [k]))"

text \<open>
  \<open>metadata.players[k].data.teamData.leader = flag\<close> followed by
  \<open>metadata.players[k].data.leader = flag\<close>.
\<close>

definition setLeader :: "player list \<Rightarrow> nat \<Rightarrow> bool \<Rightarrow> error + player list" where
  "setLeader ps k flag =
     (case player_data ps (Some k) of
        Inl e \<Rightarrow> Inl e
      | Inr d \<Rightarrow>
          (case teamData d of
             None \<Rightarrow> Inl TypeError
           | Some td \<Rightarrow>
               Inr (set_data ps k
                      (d\<lparr>teamData := Some (td\<lparr>td_leader := flag\<rparr>), leader := Some flag\<rparr>))))"

text \<open>
  The outer loop \<open>for (teamID; teamID < numOfTeams; teamID++)\<close>; the first argument is
  the number of iterations left. \<open>tmp_playerArray[0]\<close> is \<open>undefined\<close> when the inner
  loop assigned nobody, and \<open>metadata.players[undefined].data\<close> raises.
\<close>

fun formTeams ::
  "nat \<Rightarrow> nat \<Rightarrow> nat \<Rightarrow> player list \<Rightarrow> nat option \<Rightarrow> team list \<Rightarrow> nat list
     \<Rightarrow> error + (player list \<times> nat option \<times> team list \<times> nat list)" where
  "formTeams 0 tID playersInTeam ps c tms playerLeaderArray =
     Inr (ps, c, tms, playerLeaderArray)"
| "formTeams (Suc n) tID playersInTeam ps c tms playerLeaderArray =
     (case fillTeam playersInTeam (toString tID) ps c [] [] of
        Inl e \<Rightarrow> Inl e
      | Inr (ps1, c1, tmp_playerArray, pids) \<Rightarrow>
          (case tmp_playerArray of
             [] \<Rightarrow> Inl TypeError
           | id_leader # _ \<Rightarrow>
               (case setLeader ps1 id_leader True of
                  Inl e \<Rightarrow> Inl e
                | Inr ps2 \<Rightarrow>
                    formTeams n (tID + 1) playersInTeam ps2 c1
                      (tms @ [\<lparr>teamID = toString tID, playersID = pids\<rparr>])
                      (playerLeaderArray @ [id_leader]))))"

text \<open>
  \<open>teams.find(team => team.teamID === teamID.toString())\<close> followed by
  \<open>team.playersID = [...team.playersID, playerID.toString()]\<close>: the first team with
  that id gets the key appended; \<open>None\<close> when \<open>find\<close> returns \<open>undefined\<close>.
\<close>

fun addToTeam :: "string \<Rightarrow> nat \<Rightarrow> team list \<Rightarrow> team list option" where
  "addToTeam tid k [] = None"
| "addToTeam tid k (t # ts) =
     (if teamID t = tid then Some (t\<lparr>playersID := playersID t @ [k]\<rparr> # ts)
      else map_option ((#) t) (addToTeam tid k ts))"

text \<open>
  The loop \<open>for (let id = 0; id < numOfReminder; id++)\<close>, which hands the leftover
  players to teams 0, 1, ...; the first argument is the number of iterations left.
\<close>

fun distribute ::
  "nat \<Rightarrow> nat \<Rightarrow> player list \<Rightarrow> nat option \<Rightarrow> team list
     \<Rightarrow> error + (player list \<times> nat option \<times> team list)" where
  "distribute 0 tID ps c tms = Inr (ps, c, tms)"
| "distribute (Suc n) tID ps c tms =
     (case assignSlot ps c (toString tID) of
        Inl e \<Rightarrow> Inl e
      | Inr (ps', k) \<Rightarrow>
          (case addToTeam (toString tID) k tms of
             None \<Rightarrow> Inl TypeError
           | Some tms' \<Rightarrow> distribute n (tID + 1) ps' (Some (k + 1)) tms'))"

text \<open>
  With \<open>numOfTeams = 0\<close> JavaScript computes \<open>numPlayer % 0 = NaN\<close>: the branch
  \<open>numOfReminder !== 0\<close> is entered and its loop condition \<open>id < NaN\<close> is false at once,
  so no leftover is handed out.
\<close>

definition CreateTeam :: "db \<Rightarrow> string \<Rightarrow> body \<Rightarrow> (error + team list) \<times> db" where
  "CreateTeam db gameID b =
     (case numOfTeams b of
        None \<Rightarrow> (Inl (Throw 403 ''Define number of team''), db)
      | Some numOfTeams0 \<Rightarrow>
          case db gameID of
            None \<Rightarrow> (Inl (Throw 404 (''Game '' @ gameID @ '' not found'')), db)
          | Some md \<Rightarrow>
              case scanRoles (players md) [0..<length (players md)] [] [] of
                Inl e \<Rightarrow> (Inl e, db)
              | Inr (playerArray, adminArray) \<Rightarrow>
                  let numPlayer = length playerArray;
                      playersInTeam = numPlayer div numOfTeams0;
                      numOfReminder = (if numOfTeams0 = 0 then 0 else numPlayer mod numOfTeams0);
                      playerID0 = (case playerArray of [] \<Rightarrow> None | k # _ \<Rightarrow> Some k)
                  in case formTeams numOfTeams0 0 playersInTeam (players md) playerID0 [] [] of
                       Inl e \<Rightarrow> (Inl e, db)
                     | Inr (ps1, c1, tms1, playerLeaderArray) \<Rightarrow>
                         (case distribute numOfReminder 0 ps1 c1 tms1 of
                            Inl e \<Rightarrow> (Inl e, db)
                          | Inr (ps2, c2, tms2) \<Rightarrow>
                              let sd' = (case setupData md of
                                           None \<Rightarrow> None
                                         | Some sd \<Rightarrow>
                                             Some (sd\<lparr>teams := Some tms2,
                                                      adminsID := Some adminArray,
                                                      sd_playersID := Some playerArray,
                                                      leadersID := Some playerLeaderArray\<rparr>));
                                  md' = md\<lparr>players := ps2, setupData := sd'\<rparr>
                              in (Inr tms2, db(gameID \<mapsto> md'))))"

section \<open>teams/update/leader\<close>

text \<open>
  The loop over \<open>Object.keys(metadata.players)\<close>: \<open>playerID_oldLeader\<close> (initially
  \<open>''\<close>, here \<open>None\<close>) and \<open>playerID_others\<close>.
\<close>

fun scanTeam ::
  "player list \<Rightarrow> string \<Rightarrow> nat list \<Rightarrow> nat option \<Rightarrow> nat list
     \<Rightarrow> error + (nat option \<times> nat list)" where
  "scanTeam ps tid [] oldLeader others = Inr (oldLeader, others)"
| "scanTeam ps tid (k # ks) oldLeader others =
     (case player_data ps (Some k) of
        Inl e \<Rightarrow> Inl e
      | Inr d \<Rightarrow>
          (case teamData d of
             None \<Rightarrow> scanTeam ps tid ks oldLeader others
           | Some td \<Rightarrow>
               if td_teamID td = tid
               then (if td_leader td then scanTeam ps tid ks (Some k) others
                     else scanTeam ps tid ks oldLeader (others @ [k]))
               else scanTeam ps tid ks oldLeader others))"

text \<open>
  \<open>index_old = leadersID_array.indexOf(playerID_oldLeader)\<close> and, when it is not -1,
  \<open>leadersID_array[index_old] = playerID_newLeader\<close>.
\<close>

fun replaceFirst :: "nat \<Rightarrow> nat \<Rightarrow> nat list \<Rightarrow> nat list" where
  "replaceFirst old new [] = []"
| "replaceFirst old new (x # xs) =
     (if x = old then new # xs else x # replaceFirst old new xs)"

record leaderResponse =
  playerName_newLeader :: "string option"
  playerID_newLeader :: nat
  new_leadersID :: "nat list"
  new_players :: "player list"

text \<open>The check of the team id, made only when \<open>metadata.setupData\<close> is there.\<close>

definition checkTeam :: "metadata \<Rightarrow> string \<Rightarrow> error + unit" where
  "checkTeam md tid =
     (case setupData md of
        None \<Rightarrow> Inr ()
      | Some sd \<Rightarrow>
          (case teams sd of
             None \<Rightarrow> Inl TypeError
           | Some tms \<Rightarrow>
               if find (\<lambda>t. teamID t = tid) tms = None
               then Inl (Throw 404 (''Team '' @ tid @ '' not found''))
               else Inr ()))"

text \<open>
  \<open>teamID0\<close> is \<open>ctx.params.team\<close>. \<open>r\<close> is the value of
  \<open>Math.floor(Math.random() * playerID_others.length)\<close>; an index outside the array
  reads \<open>undefined\<close>, on which the next property access raises. When nobody can take
  over, the handler only logs and sets no body (\<open>Inr None\<close>).
\<close>

definition UpdateLeader ::
  "db \<Rightarrow> string \<Rightarrow> string option \<Rightarrow> nat \<Rightarrow> (error + leaderResponse option) \<times> db" where
  "UpdateLeader db gameID teamID0 r =
     (case teamID0 of
        None \<Rightarrow> (Inl (Throw 403 ''Select the team to update''), db)
      | Some tid \<Rightarrow>
          case db gameID of
            None \<Rightarrow> (Inl (Throw 404 (''Game '' @ gameID @ '' not found'')), db)
          | Some md \<Rightarrow>
              case checkTeam md tid of
                Inl e \<Rightarrow> (Inl e, db)
              | Inr u \<Rightarrow>
                  case scanTeam (players md) tid [0..<length (players md)] None [] of
                    Inl e \<Rightarrow> (Inl e, db)
                  | Inr (oldLeader, others) \<Rightarrow>
                      if others = [] then (Inr None, db)
                      else if \<not> r < length others then (Inl TypeError, db)
                      else
                        let newLeader = others ! r
                        in case setLeader (players md) newLeader True of
                             Inl e \<Rightarrow> (Inl e, db)
                           | Inr ps1 \<Rightarrow>
                               case oldLeader of
                                 None \<Rightarrow> (Inl TypeError, db)
                               | Some old \<Rightarrow>
                                   case setLeader ps1 old False of
                                     Inl e \<Rightarrow> (Inl e, db)
                                   | Inr ps2 \<Rightarrow>
                                       case setupData md of
                                         None \<Rightarrow> (Inl TypeError, db)
                                       | Some sd \<Rightarrow>
                                           case leadersID sd of
                                             None \<Rightarrow> (Inl TypeError, db)
                                           | Some arr \<Rightarrow>
                                               let arr' = replaceFirst old newLeader arr;
                                                   md' = md\<lparr>players := ps2,
                                                            setupData := Some (sd\<lparr>leadersID := Some arr'\<rparr>)\<rparr>
                                               in (Inr (Some \<lparr>playerName_newLeader = name (ps2 ! newLeader),
                                                              playerID_newLeader = newLeader,
                                                              new_leadersID = arr',
                                                              new_players = ps2\<rparr>),
                                                   db(gameID \<mapsto> md')))"

section \<open>Notions used in the statements\<close>

text \<open>The slots of the room that a call of \<open>CreateGame\<close> has stored.\<close>

definition createdSlots :: "error + (string \<times> db) \<Rightarrow> player list option" where
  "createdSlots res =
     (case res of Inl e \<Rightarrow> None | Inr (gameID, db') \<Rightarrow> map_option players (db' gameID))"

text \<open>
  A request passes the checks that leave, update and playAgain share: it names a slot of
  the room and carries the credentials stored on that slot.
\<close>

definition authorized :: "db \<Rightarrow> string \<Rightarrow> body \<Rightarrow> bool" where
  "authorized db gameID b =
     (case playerID b of
        None \<Rightarrow> False
      | Some pid \<Rightarrow>
          (case db gameID of
             None \<Rightarrow> False
           | Some md \<Rightarrow>
               pid < length (players md) \<and> body_credentials b = credentials (players md ! pid)))"

subsection \<open>Teams as the leader rotation reads them\<close>

text \<open>
  teams/update/leader finds the members of a team and its leader on the slots: a slot
  belongs to the team named by its \<open>teamData.teamID\<close> and leads it when
  \<open>teamData.leader\<close> is set.
\<close>

definition teamOf :: "player \<Rightarrow> string option" where
  "teamOf p = (case data p of None \<Rightarrow> None | Some d \<Rightarrow> map_option td_teamID (teamData d))"

definition leads :: "player \<Rightarrow> bool" where
  "leads p =
     (case data p of
        None \<Rightarrow> False
      | Some d \<Rightarrow> (case teamData d of None \<Rightarrow> False | Some td \<Rightarrow> td_leader td))"

definition teamMembers :: "player list \<Rightarrow> string \<Rightarrow> nat list" where
  "teamMembers ps tid = filter (\<lambda>k. teamOf (ps ! k) = Some tid) [0..<length ps]"

definition teamLeaders :: "player list \<Rightarrow> string \<Rightarrow> nat list" where
  "teamLeaders ps tid = filter (\<lambda>k. leads (ps ! k)) (teamMembers ps tid)"

subsection \<open>Example rooms\<close>

definition noRooms :: db where
  "noRooms = Map.empty"

definition twoSlotRoom :: metadata where
  "twoSlotRoom = \<lparr>gameName = ''g'', unlisted = False, players = [openSlot 0, openSlot 1],
      setupData = None, nextRoomID = None\<rparr>"

definition annRoom :: metadata where
  "annRoom = \<lparr>gameName = ''g'', unlisted = False,
      players = [\<lparr>id_slot = 0, name = Some ''Ann'', credentials = Some ''c1'', data = None\<rparr>,
                 openSlot 1],
      setupData = None, nextRoomID = None\<rparr>"

definition annLinked :: db where
  "annLinked = [''s'' \<mapsto> twoSlotRoom, ''r'' \<mapsto> annRoom\<lparr>nextRoomID := Some ''s''\<rparr>]"

definition mkSlot :: "nat \<Rightarrow> string \<Rightarrow> bool \<Rightarrow> bool \<Rightarrow> player" where
  "mkSlot i nm pl ad = \<lparr>id_slot = i, name = Some nm, credentials = Some (''c'' @ nm),
     data = Some \<lparr>player = pl, admin = ad, leader = None, teamData = None\<rparr>\<rparr>"

definition emptySetup :: setupData where
  "emptySetup = \<lparr>teams = None, adminsID = None, sd_playersID = None, leadersID = None\<rparr>"

text \<open>Four seated slots: a player, two admins side by side, a player.\<close>

definition adminPairRoom :: metadata where
  "adminPairRoom = \<lparr>gameName = ''g'', unlisted = False,
     players = [mkSlot 0 ''A'' True False, mkSlot 1 ''B'' False True,
                mkSlot 2 ''C'' False True, mkSlot 3 ''D'' True False],
     setupData = Some emptySetup, nextRoomID = None\<rparr>"

text \<open>One seated player in a room that was created without \<open>setupData\<close>.\<close>

definition soloRoom :: metadata where
  "soloRoom = \<lparr>gameName = ''g'', unlisted = False, players = [mkSlot 0 ''A'' True False],
     setupData = None, nextRoomID = None\<rparr>"

text \<open>Three seated players, before and after teams/create with two teams.\<close>

definition threeRoom :: metadata where
  "threeRoom = \<lparr>gameName = ''g'', unlisted = False,
     players = [mkSlot 0 ''A'' True False, mkSlot 1 ''B'' True False, mkSlot 2 ''C'' True False],
     setupData = Some emptySetup, nextRoomID = None\<rparr>"

definition teamedRoom :: metadata where
  "teamedRoom = \<lparr>gameName = ''g'', unlisted = False,
     players =
       [\<lparr>id_slot = 0, name = Some ''A'', credentials = Some ''cA'',
           data = Some \<lparr>player = True, admin = False, leader = Some True,
                         teamData = Some \<lparr>td_teamID = ''0'', td_leader = True\<rparr>\<rparr>\<rparr>,
        \<lparr>id_slot = 1, name = Some ''B'', credentials = Some ''cB'',
           data = Some \<lparr>player = True, admin = False, leader = Some True,
                         teamData = Some \<lparr>td_teamID = ''1'', td_leader = True\<rparr>\<rparr>\<rparr>,
        \<lparr>id_slot = 2, name = Some ''C'', credentials = Some ''cC'',
           data = Some \<lparr>player = True, admin = False, leader = Some False,
                         teamData = Some \<lparr>td_teamID = ''0'', td_leader = False\<rparr>\<rparr>\<rparr>],
     setupData =
       Some \<lparr>teams = Some [\<lparr>teamID = ''0'', playersID = [0, 2]\<rparr>,
                             \<lparr>teamID = ''1'', playersID = [1]\<rparr>],
              adminsID = Some [], sd_playersID = Some [0, 1, 2], leadersID = Some [0, 1]\<rparr>,
     nextRoomID = None\<rparr>"

text \<open>
  \<open>threeRoom\<close> after teams/create with one team, the body of an update request by
  which the player on slot 0 replaces the \<open>data\<close> of the slot (the handler assigns
  \<open>metadata.players[playerID].data = data\<close>, so the \<open>teamData\<close> written by teams/create
  is gone), and the room after that update.
\<close>

definition oneTeamRoom :: metadata where
  "oneTeamRoom = \<lparr>gameName = ''g'', unlisted = False,
     players =
       [\<lparr>id_slot = 0, name = Some ''A'', credentials = Some ''cA'',
           data = Some \<lparr>player = True, admin = False, leader = Some True,
                         teamData = Some \<lparr>td_teamID = ''0'', td_leader = True\<rparr>\<rparr>\<rparr>,
        \<lparr>id_slot = 1, name = Some ''B'', credentials = Some ''cB'',
           data = Some \<lparr>player = True, admin = False, leader = Some False,
                         teamData = Some \<lparr>td_teamID = ''0'', td_leader = False\<rparr>\<rparr>\<rparr>,
        \<lparr>id_slot = 2, name = Some ''C'', credentials = Some ''cC'',
           data = Some \<lparr>player = True, admin = False, leader = Some False,
                         teamData = Some \<lparr>td_teamID = ''0'', td_leader = False\<rparr>\<rparr>\<rparr>],
     setupData =
       Some \<lparr>teams = Some [\<lparr>teamID = ''0'', playersID = [0, 1, 2]\<rparr>],
              adminsID = Some [], sd_playersID = Some [0, 1, 2], leadersID = Some [0]\<rparr>,
     nextRoomID = None\<rparr>"

definition resetData :: body where
  "resetData = noBody\<lparr>playerID := Some 0, body_credentials := Some ''cA'',
     body_data := Some \<lparr>player = True, admin = False, leader = None, teamData = None\<rparr>\<rparr>"

definition leaderlessRoom :: metadata where
  "leaderlessRoom = oneTeamRoom\<lparr>players :=
     [\<lparr>id_slot = 0, name = Some ''A'', credentials = Some ''cA'',
         data = Some \<lparr>player = True, admin = False, leader = None, teamData = None\<rparr>\<rparr>,
      \<lparr>id_slot = 1, name = Some ''B'', credentials = Some ''cB'',
         data = Some \<lparr>player = True, admin = False, leader = Some False,
                       teamData = Some \<lparr>td_teamID = ''0'', td_leader = False\<rparr>\<rparr>\<rparr>,
      \<lparr>id_slot = 2, name = Some ''C'', credentials = Some ''cC'',
         data = Some \<lparr>player = True, admin = False, leader = Some False,
                       teamData = Some \<lparr>td_teamID = ''0'', td_leader = False\<rparr>\<rparr>\<rparr>]\<rparr>"

text \<open>A room of \<open>n\<close> seated slots, each flagged player and not admin.\<close>

definition plainRoom :: "nat \<Rightarrow> metadata" where
  "plainRoom n = \<lparr>gameName = ''g'', unlisted = False,
     players = map (\<lambda>i. mkSlot i ''p'' True False) [0..<n],
     setupData = Some emptySetup, nextRoomID = None\<rparr>"

subsection \<open>The seated invariant\<close>

text \<open>A slot has a name if and only if it has credentials; a store where every slot does.\<close>

definition seatedSlot :: "player \<Rightarrow> bool" where
  "seatedSlot p = ((name p = None) = (credentials p = None))"

definition seatedRoom :: "metadata \<Rightarrow> bool" where
  "seatedRoom md = list_all seatedSlot (players md)"

definition seatedStore :: "db \<Rightarrow> bool" where
  "seatedStore db = (\<forall>g md. db g = Some md \<longrightarrow> seatedRoom md)"

subsection \<open>Regular rooms\<close>

text \<open>
  A slot that carries \<open>data\<close> flagged player and not admin, and the weaker property
  that the fill loops rely on.
\<close>

definition plainSlot :: "player \<Rightarrow> bool" where
  "plainSlot p = (case data p of None \<Rightarrow> False | Some d \<Rightarrow> player d \<and> \<not> admin d)"

definition noAdminSlot :: "player \<Rightarrow> bool" where
  "noAdminSlot p = (case data p of None \<Rightarrow> False | Some d \<Rightarrow> \<not> admin d)"

text \<open>Reading a decimal string, to tell the team identifiers apart.\<close>

definition digitVal :: "char \<Rightarrow> nat" where
  "digitVal c = length (takeWhile (\<lambda>x. x \<noteq> c) ''0123456789'')"

definition fromDigits :: "string \<Rightarrow> nat" where
  "fromDigits s = fold (\<lambda>c n. 10 * n + digitVal c) s 0"

section \<open>Properties of room creation, admission and succession\<close>

subsection \<open>CreateGame\<close>

text \<open>
  With \<open>numPlayers = 0\<close> the guard \<open>!numPlayers\<close> holds and the room gets two slots,
  not zero.
\<close>

theorem C8_counterexample:
  "map_option length (createdSlots (CreateGame noRooms (Some ''g'') (Some 0) None ''r'' False)) = Some 2"
  by (simp add: CreateGame_def createdSlots_def noRooms_def)

text \<open>
  Claim C8, as the code has it: for every positive \<open>numPlayers = k\<close>, \<open>CreateGame\<close>
  stores a room with exactly \<open>k\<close> slots; when \<open>numPlayers\<close> is absent, not a number or
  0 the room has 2 slots; in every case slot \<open>i\<close> holds only its id \<open>i\<close>, with no name,
  no credentials and no data.
\<close>

theorem C8_CreateGame_slots:
  "\<exists>ps. createdSlots (CreateGame db (Some g) np sd u ul) = Some ps \<and>
        (\<forall>k. np = Some k \<and> 0 < k \<longrightarrow> length ps = nat k) \<and>
        (np = None \<or> np = Some 0 \<longrightarrow> length ps = 2) \<and>
        (\<forall>i < length ps.
           ps ! i = \<lparr>id_slot = i, name = None, credentials = None, data = None\<rparr>)"
  by (auto simp: CreateGame_def createdSlots_def openSlot_def Let_def split: option.splits)

theorem C8_CreateGame_slots_witness:
  "\<exists>ps. createdSlots (CreateGame noRooms (Some ''g'') (Some 3) None ''r'' False) = Some ps \<and>
        length ps = 3 \<and>
        ps ! 0 = \<lparr>id_slot = 0, name = None, credentials = None, data = None\<rparr> \<and>
        ps ! 2 = \<lparr>id_slot = 2, name = None, credentials = None, data = None\<rparr>"
  using C8_CreateGame_slots [of noRooms "''g''" "Some 3" None "''r''" False]
  by (auto simp: noRooms_def)

subsection \<open>join\<close>

text \<open>
  Claim C5: joining an open slot of a room seats the player under the given name and
  returns the credentials minted for the call, which are stored on the slot; a further
  join to that slot is answered with 409 and leaves the store as it is, so the slot keeps
  the first joiner's name and credentials. A join without \<open>playerID\<close> or without
  \<open>playerName\<close> is answered with 403, and a join to a room or a slot that does not
  exist with 404; in both cases nothing is stored.
\<close>

theorem C5_join:
  "(db gid = Some md \<and> playerID b = Some pid \<and> pid < length (players md) \<and>
      truthy (playerName b) \<and> \<not> truthy (name (players md ! pid)) \<longrightarrow>
      (\<exists>md'. join_handler db gid b cred = (Inr cred, db(gid \<mapsto> md')) \<and>
         name (players md' ! pid) = playerName b \<and>
         credentials (players md' ! pid) = Some cred \<and>
         (\<forall>b2 cred2. playerID b2 = Some pid \<and> truthy (playerName b2) \<longrightarrow>
            (\<exists>msg. join_handler (db(gid \<mapsto> md')) gid b2 cred2 =
                     (Inl (Throw 409 msg), db(gid \<mapsto> md')))))) \<and>
   (playerID b3 = None \<or> \<not> truthy (playerName b3) \<longrightarrow>
      (\<exists>msg. join_handler db3 gid3 b3 cred3 = (Inl (Throw 403 msg), db3))) \<and>
   (playerID b4 = Some pid4 \<and> truthy (playerName b4) \<and>
      (db4 gid4 = None \<or> (\<exists>md4. db4 gid4 = Some md4 \<and> \<not> pid4 < length (players md4))) \<longrightarrow>
      (\<exists>msg. join_handler db4 gid4 b4 cred4 = (Inl (Throw 404 msg), db4)))"
proof (intro conjI impI)
  assume a: "db gid = Some md \<and> playerID b = Some pid \<and> pid < length (players md) \<and>
      truthy (playerName b) \<and> \<not> truthy (name (players md ! pid))"
  define p where "p = (case body_data b of Some d \<Rightarrow> (players md ! pid)\<lparr>data := Some d\<rparr>
                         | None \<Rightarrow> players md ! pid)
                      \<lparr>name := playerName b, credentials := Some cred\<rparr>"
  define md' where "md' = md\<lparr>players := (players md)[pid := p]\<rparr>"
  have r: "join_handler db gid b cred = (Inr cred, db(gid \<mapsto> md'))"
    using a by (simp add: join_handler_def md'_def p_def Let_def split: option.splits)
  have n: "name (players md' ! pid) = playerName b" "credentials (players md' ! pid) = Some cred"
    using a by (simp_all add: md'_def p_def split: option.splits)
  have l: "pid < length (players md')" using a by (simp add: md'_def)
  have s: "\<forall>b2 cred2. playerID b2 = Some pid \<and> truthy (playerName b2) \<longrightarrow>
            (\<exists>msg. join_handler (db(gid \<mapsto> md')) gid b2 cred2 =
                     (Inl (Throw 409 msg), db(gid \<mapsto> md')))"
    using a n l by (simp add: join_handler_def)
  show "\<exists>md'. join_handler db gid b cred = (Inr cred, db(gid \<mapsto> md')) \<and>
         name (players md' ! pid) = playerName b \<and>
         credentials (players md' ! pid) = Some cred \<and>
         (\<forall>b2 cred2. playerID b2 = Some pid \<and> truthy (playerName b2) \<longrightarrow>
            (\<exists>msg. join_handler (db(gid \<mapsto> md')) gid b2 cred2 =
                     (Inl (Throw 409 msg), db(gid \<mapsto> md'))))"
    using r n s by blast
next
  assume "playerID b3 = None \<or> \<not> truthy (playerName b3)"
  then show "\<exists>msg. join_handler db3 gid3 b3 cred3 = (Inl (Throw 403 msg), db3)"
    by (auto simp: join_handler_def split: option.splits)
next
  assume "playerID b4 = Some pid4 \<and> truthy (playerName b4) \<and>
      (db4 gid4 = None \<or> (\<exists>md4. db4 gid4 = Some md4 \<and> \<not> pid4 < length (players md4)))"
  then show "\<exists>msg. join_handler db4 gid4 b4 cred4 = (Inl (Throw 404 msg), db4)"
    by (auto simp: join_handler_def split: option.splits)
qed

theorem C5_join_witness:
  "(\<exists>md'. join_handler [''r'' \<mapsto> twoSlotRoom] ''r''
              (noBody\<lparr>playerID := Some 0, playerName := Some ''Ann''\<rparr>) ''c1'' =
             (Inr ''c1'', [''r'' \<mapsto> md']) \<and>
          name (players md' ! 0) = Some ''Ann'' \<and>
          credentials (players md' ! 0) = Some ''c1'' \<and>
          (\<exists>msg. join_handler [''r'' \<mapsto> md'] ''r''
                    (noBody\<lparr>playerID := Some 0, playerName := Some ''Bob''\<rparr>) ''c2'' =
                   (Inl (Throw 409 msg), [''r'' \<mapsto> md']))) \<and>
   (\<exists>msg. join_handler [''r'' \<mapsto> twoSlotRoom] ''r'' (noBody\<lparr>playerID := Some 0\<rparr>) ''c1'' =
            (Inl (Throw 403 msg), [''r'' \<mapsto> twoSlotRoom])) \<and>
   (\<exists>msg. join_handler [''r'' \<mapsto> twoSlotRoom] ''r''
             (noBody\<lparr>playerID := Some 5, playerName := Some ''Ann''\<rparr>) ''c1'' =
            (Inl (Throw 404 msg), [''r'' \<mapsto> twoSlotRoom]))"
  using C5_join [of "[''r'' \<mapsto> twoSlotRoom]" "''r''" twoSlotRoom
      "noBody\<lparr>playerID := Some 0, playerName := Some ''Ann''\<rparr>" 0 "''c1''"
      "noBody\<lparr>playerID := Some 0\<rparr>" "[''r'' \<mapsto> twoSlotRoom]" "''r''" "''c1''"
      "noBody\<lparr>playerID := Some 5, playerName := Some ''Ann''\<rparr>" 5 "[''r'' \<mapsto> twoSlotRoom]"
      "''r''" "''c1''"]
  apply (simp add: noBody_def twoSlotRoom_def truthy_def openSlot_def)
  apply (elim exE conjE)
  subgoal for md'
    apply (rule exI [of _ md'])
    apply simp
    done
  done

subsection \<open>leave\<close>

text \<open>
  Claim C6: a leave that passes the checks clears \<open>name\<close> and \<open>credentials\<close> of the
  slot; when no slot has a name after that, the room is removed from the store, so a
  fetch finds nothing; otherwise the updated record is stored. Stored names are never
  empty strings (join and update write only truthy names), which is the fifth
  assumption.
\<close>

theorem C6_leave:
  assumes "db gid = Some md" and "playerID b = Some pid" and "pid < length (players md)"
    and "body_credentials b = credentials (players md ! pid)"
    and "\<forall>q \<in> set (players md). name q \<noteq> Some []"
  shows "\<exists>ps'. ps' = (players md)[pid := (players md ! pid)\<lparr>name := None, credentials := None\<rparr>] \<and>
           fst (leave_handler db gid b) = Inr () \<and>
           ((\<forall>q \<in> set ps'. name q = None) \<longrightarrow>
              snd (leave_handler db gid b) = db(gid := None) \<and>
              snd (leave_handler db gid b) gid = None) \<and>
           (\<not> (\<forall>q \<in> set ps'. name q = None) \<longrightarrow>
              snd (leave_handler db gid b) = db(gid \<mapsto> md\<lparr>players := ps'\<rparr>))"
proof -
  define ps' where "ps' = (players md)[pid := (players md ! pid)\<lparr>name := None, credentials := None\<rparr>]"
  have ne: "\<forall>q \<in> set ps'. name q \<noteq> Some []"
    using assms(5) unfolding ps'_def by (auto dest!: set_update_subset_insert [THEN subsetD])
  have ex: "list_ex (\<lambda>q. truthy (name q)) ps' \<longleftrightarrow> \<not> (\<forall>q \<in> set ps'. name q = None)"
    using ne by (auto simp: list_ex_iff truthy_def split: option.splits)
  show ?thesis
    using assms(1-4) ex
    by (auto simp: leave_handler_def Let_def ps'_def)
qed

theorem C6_leave_witness:
  "fst (leave_handler [''r'' \<mapsto> annRoom] ''r''
          (noBody\<lparr>playerID := Some 0, body_credentials := Some ''c1''\<rparr>)) = Inr () \<and>
   snd (leave_handler [''r'' \<mapsto> annRoom] ''r''
          (noBody\<lparr>playerID := Some 0, body_credentials := Some ''c1''\<rparr>)) ''r'' = None"
  using C6_leave [of "[''r'' \<mapsto> annRoom]" "''r''" annRoom
      "noBody\<lparr>playerID := Some 0, body_credentials := Some ''c1''\<rparr>" 0]
  by (simp add: annRoom_def noBody_def openSlot_def)

subsection \<open>The credential check\<close>

text \<open>
  Claim C2: in a room that exists, for a slot that exists, a request whose credentials
  differ from the ones stored on the slot is answered with 403 by leave, update and
  playAgain when it names the slot by \<open>playerID\<close>, and by rejoin when \<open>playerName\<close>
  selects the slot; whatever the other fields of the request are, nothing is stored. The
  message is the one of the credential check, except that update reports a missing or
  ill-typed \<open>newName\<close> first, with 403 as well.
\<close>

theorem C2_credential_mismatch:
  assumes "db gid = Some md" and "pid < length (players md)"
    and "body_credentials b \<noteq> credentials (players md ! pid)"
  shows "(playerID b = Some pid \<longrightarrow>
            leave_handler db gid b =
              (Inl (Throw 403 (''Invalid credentials '' @ showCred (body_credentials b))), db) \<and>
            playAgain_handler db games gname gid b uuid =
              (Inl (Throw 403 (''Invalid credentials '' @ showCred (body_credentials b))), db) \<and>
            (\<exists>msg. updatePlayerMetadata db gid b = (Inl (Throw 403 msg), db)) \<and>
            ((body_data b \<noteq> None \<or> (\<exists>s. newName b = Str s \<and> s \<noteq> [])) \<and>
               (\<forall>ty. newName b \<noteq> NonStr ty) \<longrightarrow>
               updatePlayerMetadata db gid b =
                 (Inl (Throw 403 (''Invalid credentials '' @ showCred (body_credentials b))), db))) \<and>
         (truthy (playerName b) \<and>
            find (\<lambda>k. name (players md ! k) = playerName b) [0..<length (players md)] = Some pid \<longrightarrow>
            RejoinGame db gid b =
              (Inl (Throw 403 (''Invalid credentials '' @ showCred (body_credentials b))), db))"
  using assms
  by (auto simp: leave_handler_def updatePlayerMetadata_def playAgain_handler_def RejoinGame_def
      split: name_field.splits)

theorem C2_credential_mismatch_witness:
  "leave_handler [''r'' \<mapsto> annRoom] ''r''
     (noBody\<lparr>playerID := Some 0, playerName := Some ''Ann'', newName := Str ''Eve'',
              body_credentials := Some ''bad''\<rparr>) =
     (Inl (Throw 403 ''Invalid credentials bad''), [''r'' \<mapsto> annRoom]) \<and>
   playAgain_handler [''r'' \<mapsto> annRoom] [''g''] ''g'' ''r''
     (noBody\<lparr>playerID := Some 0, playerName := Some ''Ann'', newName := Str ''Eve'',
              body_credentials := Some ''bad''\<rparr>) ''s'' =
     (Inl (Throw 403 ''Invalid credentials bad''), [''r'' \<mapsto> annRoom]) \<and>
   updatePlayerMetadata [''r'' \<mapsto> annRoom] ''r''
     (noBody\<lparr>playerID := Some 0, playerName := Some ''Ann'', newName := Str ''Eve'',
              body_credentials := Some ''bad''\<rparr>) =
     (Inl (Throw 403 ''Invalid credentials bad''), [''r'' \<mapsto> annRoom]) \<and>
   RejoinGame [''r'' \<mapsto> annRoom] ''r''
     (noBody\<lparr>playerID := Some 0, playerName := Some ''Ann'', newName := Str ''Eve'',
              body_credentials := Some ''bad''\<rparr>) =
     (Inl (Throw 403 ''Invalid credentials bad''), [''r'' \<mapsto> annRoom])"
  using C2_credential_mismatch [of "[''r'' \<mapsto> annRoom]" "''r''" annRoom 0
      "noBody\<lparr>playerID := Some 0, playerName := Some ''Ann'', newName := Str ''Eve'',
               body_credentials := Some ''bad''\<rparr>"
      "[''g'']" "''g''" "''s''"]
  by (simp add: annRoom_def noBody_def openSlot_def truthy_def showCred_def)

subsection \<open>playAgain\<close>

lemma CreateGame_cases:
  "CreateGame db game np sd u ul = Inl TypeError \<or>
   (\<exists>newmd. CreateGame db game np sd u ul = Inr (u, db(u \<mapsto> newmd)))"
  by (cases game) (auto simp: CreateGame_def Let_def)

text \<open>
  Claim C4: after a playAgain that answered with \<open>nextRoomID\<close>, every further
  playAgain on the room that passes the checks, with any game list, game name, body
  fields and fresh id, answers with the same \<open>nextRoomID\<close> and leaves the store
  unchanged, so no second successor is created; the id is the one recorded on the room.
  The id generator is assumed to return a non-empty string.
\<close>

theorem C4_playAgain_idempotent:
  assumes "playAgain_handler db games gname gid b1 uuid1 = (Inr r1, db1)"
    and "uuid1 \<noteq> []" and "authorized db1 gid b2"
  shows "playAgain_handler db1 games2 gname2 gid b2 uuid2 = (Inr r1, db1) \<and>
         (\<exists>md1. db1 gid = Some md1 \<and> nextRoomID md1 = Some r1)"
proof -
  from assms(1) obtain p md where p: "playerID b1 = Some p" and md: "db gid = Some md"
    and chk: "p < length (players md)" "body_credentials b1 = credentials (players md ! p)"
    by (auto simp: playAgain_handler_def split: option.splits if_splits)
  show ?thesis
  proof (cases "truthy (nextRoomID md)")
    case True
    with assms(1) p md chk have "db1 = db" and "nextRoomID md = Some r1"
      by (auto simp: playAgain_handler_def truthy_def split: option.splits)
    with assms(3) md True show ?thesis
      by (auto simp: playAgain_handler_def authorized_def split: option.splits)
  next
    case False
    define res where "res = CreateGame db (find (\<lambda>g. g = gname) games)
        (Some (case numPlayers b1 of None \<Rightarrow> int (length (players md))
               | Some k \<Rightarrow> if k = 0 then int (length (players md)) else k))
        (case body_setupData b1 of Some s \<Rightarrow> Some s | None \<Rightarrow> setupData md)
        uuid1 (body_unlisted b1)"
    have eq: "(case res of Inl e \<Rightarrow> (Inl e, db)
               | Inr (n, d) \<Rightarrow> (Inr n, d(gid \<mapsto> md\<lparr>nextRoomID := Some n\<rparr>))) = (Inr r1, db1)"
      using False assms(1) p md chk
      by (simp add: playAgain_handler_def Let_def res_def)
    have "res = Inl TypeError \<or> (\<exists>newmd. res = Inr (uuid1, db(uuid1 \<mapsto> newmd)))"
      unfolding res_def by (rule CreateGame_cases)
    moreover have "res \<noteq> Inl TypeError"
      using eq by (cases res) simp_all
    ultimately obtain newmd where res: "res = Inr (uuid1, db(uuid1 \<mapsto> newmd))"
      by blast
    have pr: "uuid1 = r1 \<and> (db(uuid1 \<mapsto> newmd))(gid \<mapsto> md\<lparr>nextRoomID := Some uuid1\<rparr>) = db1"
      using eq unfolding res sum.case prod.case prod.inject sum.inject by blast
    have r: "r1 = uuid1"
      using pr by (rule conjunct1 [THEN sym])
    have d: "db1 = (db(uuid1 \<mapsto> newmd))(gid \<mapsto> md\<lparr>nextRoomID := Some uuid1\<rparr>)"
      using pr by (rule conjunct2 [THEN sym])
    have g: "db1 gid = Some (md\<lparr>nextRoomID := Some uuid1\<rparr>)"
      by (simp add: d)
    from assms(3) obtain p2 where "playerID b2 = Some p2" "p2 < length (players md)"
      "body_credentials b2 = credentials (players md ! p2)"
      by (auto simp: authorized_def g split: option.splits)
    then show ?thesis
      using assms(2) g r by (simp add: playAgain_handler_def truthy_def)
  qed
qed

theorem C4_playAgain_idempotent_witness:
  "playAgain_handler annLinked [] ''chess'' ''r''
     (noBody\<lparr>playerID := Some 0, body_credentials := Some ''c1'', numPlayers := Some 5\<rparr>) ''t'' =
   (Inr ''s'', annLinked)"
proof -
  have first: "playAgain_handler [''r'' \<mapsto> annRoom] [''g''] ''g'' ''r''
      (noBody\<lparr>playerID := Some 0, body_credentials := Some ''c1''\<rparr>) ''s'' = (Inr ''s'', annLinked)"
    by (simp add: playAgain_handler_def CreateGame_def annLinked_def annRoom_def twoSlotRoom_def
        noBody_def openSlot_def truthy_def Let_def upt_conv_Cons)
  have ne: "''s'' \<noteq> []" by simp
  have auth: "authorized annLinked ''r''
      (noBody\<lparr>playerID := Some 0, body_credentials := Some ''c1'', numPlayers := Some 5\<rparr>)"
    by (simp add: authorized_def annLinked_def annRoom_def noBody_def)
  show ?thesis
    using C4_playAgain_idempotent [OF first ne auth] by simp
qed

subsection \<open>update\<close>

text \<open>
  Claim C3 (the seated invariant: a slot has a name if and only if it has credentials)
  does not hold of the code. In the room that \<open>CreateGame\<close> makes for two players, an
  update request that names slot 0, carries a new name and carries no credentials passes
  the credential check, since the open slot stores no credentials either; it is answered
  with success and leaves slot 0 with the name and without credentials.
\<close>

theorem C3_update_names_open_slot:
  "CreateGame noRooms (Some ''g'') (Some 2) None ''r'' False = Inr (''r'', [''r'' \<mapsto> twoSlotRoom]) \<and>
   fst (updatePlayerMetadata [''r'' \<mapsto> twoSlotRoom] ''r''
          (noBody\<lparr>playerID := Some 0, newName := Str ''Eve''\<rparr>)) = Inr () \<and>
   map_option (\<lambda>md. map (\<lambda>p. (name p, credentials p)) (players md))
     (snd (updatePlayerMetadata [''r'' \<mapsto> twoSlotRoom] ''r''
             (noBody\<lparr>playerID := Some 0, newName := Str ''Eve''\<rparr>)) ''r'') =
     Some [(Some ''Eve'', None), (None, None)]"
  by (simp add: CreateGame_def noRooms_def twoSlotRoom_def
      updatePlayerMetadata_def noBody_def openSlot_def upt_conv_Cons)

section \<open>Properties of team formation\<close>

subsection \<open>What can go wrong inside teams/create\<close>

lemma player_data_error: "player_data ps c = Inl e \<Longrightarrow> e = TypeError"
  by (auto simp: player_data_def split: option.splits if_splits)

lemma scanRoles_error: "scanRoles ps ks pa aa = Inl e \<Longrightarrow> e = TypeError"
  by (induction ks arbitrary: pa aa) (auto split: sum.splits dest: player_data_error)

lemma assignSlot_error: "assignSlot ps c tid = Inl e \<Longrightarrow> e = TypeError"
  by (auto simp: assignSlot_def Let_def split: sum.splits dest: player_data_error)

lemma setLeader_error: "setLeader ps k flag = Inl e \<Longrightarrow> e = TypeError"
  by (auto simp: setLeader_def split: sum.splits option.splits dest: player_data_error)

lemma fillTeam_error: "fillTeam n tid ps c tmp pids = Inl e \<Longrightarrow> e = TypeError"
  by (induction n arbitrary: ps c tmp pids) (auto split: sum.splits dest: assignSlot_error)

lemma formTeams_error: "formTeams n tID base ps c tms ls = Inl e \<Longrightarrow> e = TypeError"
  by (induction n arbitrary: tID ps c tms ls)
     (auto split: sum.splits list.splits dest: fillTeam_error setLeader_error)

lemma distribute_error: "distribute n tID ps c tms = Inl e \<Longrightarrow> e = TypeError"
  by (induction n arbitrary: tID ps c tms)
     (auto split: sum.splits option.splits dest: assignSlot_error)

lemma scanRoles_missing_data:
  "\<exists>k \<in> set ks. player_data ps (Some k) = Inl TypeError \<Longrightarrow>
   scanRoles ps ks pa aa = Inl TypeError"
proof (induction ks arbitrary: pa aa)
  case Nil
  then show ?case by simp
next
  case (Cons k ks)
  show ?case
  proof (cases "player_data ps (Some k)")
    case (Inl e)
    then show ?thesis using player_data_error [OF Inl] by simp
  next
    case (Inr d)
    with Cons.prems have "\<exists>k \<in> set ks. player_data ps (Some k) = Inl TypeError" by auto
    then show ?thesis using Inr Cons.IH by simp
  qed
qed

text \<open>
  Claim C10: when \<open>numOfTeams\<close> is given and the room exists, a slot without \<open>data\<close>
  anywhere in the room makes teams/create raise the uncaught TypeError in its first loop;
  the answer is neither the teams nor a 403 or 404, the slot is not skipped, and nothing
  is stored.
\<close>

theorem C10_CreateTeam_missing_data:
  assumes "numOfTeams b = Some t" and "db gid = Some md"
    and "\<exists>p \<in> set (players md). data p = None"
  shows "CreateTeam db gid b = (Inl TypeError, db)"
proof -
  from assms(3) obtain k where k: "k < length (players md)" "data (players md ! k) = None"
    by (auto simp: in_set_conv_nth)
  have "k \<in> set [0..<length (players md)]"
    using k(1) by simp
  moreover have "player_data (players md) (Some k) = Inl TypeError"
    using k by (simp add: player_data_def)
  ultimately have "\<exists>k \<in> set [0..<length (players md)].
      player_data (players md) (Some k) = Inl TypeError"
    by blast
  then have "scanRoles (players md) [0..<length (players md)] [] [] = Inl TypeError"
    by (rule scanRoles_missing_data)
  then show ?thesis
    using assms(1,2) by (simp add: CreateTeam_def)
qed

theorem C10_CreateTeam_missing_data_witness:
  "CreateTeam [''r'' \<mapsto> annRoom] ''r'' (noBody\<lparr>numOfTeams := Some 1\<rparr>) =
     (Inl TypeError, [''r'' \<mapsto> annRoom])"
  using C10_CreateTeam_missing_data [of "noBody\<lparr>numOfTeams := Some 1\<rparr>" 1
      "[''r'' \<mapsto> annRoom]" "''r''" annRoom]
  by (simp add: annRoom_def openSlot_def)

text \<open>\<open>teamedRoom\<close> is what teams/create with two teams stores for \<open>threeRoom\<close>.\<close>

lemma teamedRoom_formed:
  "fst (CreateTeam [''r'' \<mapsto> threeRoom] ''r'' (noBody\<lparr>numOfTeams := Some 2\<rparr>)) =
     Inr [\<lparr>teamID = ''0'', playersID = [0, 2]\<rparr>, \<lparr>teamID = ''1'', playersID = [1]\<rparr>] \<and>
   snd (CreateTeam [''r'' \<mapsto> threeRoom] ''r'' (noBody\<lparr>numOfTeams := Some 2\<rparr>)) ''r'' =
     Some teamedRoom"
  by code_simp

text \<open>
  A room without \<open>setupData\<close> is not rejected: teams/create answers with the teams
  and stores the team assignment of the slot.
\<close>

theorem C9_counterexample:
  "fst (CreateTeam [''r'' \<mapsto> soloRoom] ''r'' (noBody\<lparr>numOfTeams := Some 1\<rparr>)) =
     Inr [\<lparr>teamID = ''0'', playersID = [0]\<rparr>] \<and>
   map_option (\<lambda>md. (setupData md, map data (players md)))
     (snd (CreateTeam [''r'' \<mapsto> soloRoom] ''r'' (noBody\<lparr>numOfTeams := Some 1\<rparr>)) ''r'') =
     Some (None, [Some \<lparr>player = True, admin = False, leader = Some True,
                    teamData = Some \<lparr>td_teamID = ''0'', td_leader = True\<rparr>\<rparr>])"
  by (simp add: CreateTeam_def soloRoom_def mkSlot_def noBody_def player_data_def
      assignSlot_def setLeader_def set_data_def toString.simps Let_def)

text \<open>
  Claim C9, as the code has it: teams/create answers 403 when \<open>numOfTeams\<close> is absent,
  and this failure leaves the store as it was, the check standing before every assignment
  of the handler. With \<open>numOfTeams\<close> given the only failures are the 404 for an unknown
  room and the uncaught TypeError, so a room without \<open>setupData\<close> is no failure: the
  answer is the same with and without \<open>setupData\<close>, and when teams/create succeeds the
  slots that get stored are the same too.
\<close>

theorem C9_CreateTeam_failures:
  "(numOfTeams b = None \<longrightarrow>
      CreateTeam db gid b = (Inl (Throw 403 ''Define number of team''), db)) \<and>
   (numOfTeams b3 \<noteq> None \<and> fst (CreateTeam db3 gid3 b3) = Inl e3 \<longrightarrow>
      e3 = Throw 404 (''Game '' @ gid3 @ '' not found'') \<or> e3 = TypeError) \<and>
   fst (CreateTeam (db4(gid4 \<mapsto> md4\<lparr>setupData := None\<rparr>)) gid4 b4) =
     fst (CreateTeam (db4(gid4 \<mapsto> md4)) gid4 b4) \<and>
   (fst (CreateTeam (db5(gid5 \<mapsto> md5)) gid5 b5) = Inr tms5 \<longrightarrow>
      (\<exists>ps'. map_option players (snd (CreateTeam (db5(gid5 \<mapsto> md5)) gid5 b5) gid5) = Some ps' \<and>
         CreateTeam (db5(gid5 \<mapsto> md5\<lparr>setupData := None\<rparr>)) gid5 b5 =
           (Inr tms5, db5(gid5 \<mapsto> md5\<lparr>players := ps', setupData := None\<rparr>))))"
proof (intro conjI impI)
  assume "numOfTeams b = None"
  then show "CreateTeam db gid b = (Inl (Throw 403 ''Define number of team''), db)"
    by (simp add: CreateTeam_def)
next
  assume "numOfTeams b3 \<noteq> None \<and> fst (CreateTeam db3 gid3 b3) = Inl e3"
  then show "e3 = Throw 404 (''Game '' @ gid3 @ '' not found'') \<or> e3 = TypeError"
    by (auto simp: CreateTeam_def Let_def split: option.splits sum.splits prod.splits
        dest: scanRoles_error formTeams_error distribute_error)
next
  show "fst (CreateTeam (db4(gid4 \<mapsto> md4\<lparr>setupData := None\<rparr>)) gid4 b4) =
     fst (CreateTeam (db4(gid4 \<mapsto> md4)) gid4 b4)"
    by (simp add: CreateTeam_def Let_def split: option.splits sum.splits prod.splits)
next
  assume "fst (CreateTeam (db5(gid5 \<mapsto> md5)) gid5 b5) = Inr tms5"
  then show "\<exists>ps'. map_option players (snd (CreateTeam (db5(gid5 \<mapsto> md5)) gid5 b5) gid5) = Some ps' \<and>
         CreateTeam (db5(gid5 \<mapsto> md5\<lparr>setupData := None\<rparr>)) gid5 b5 =
           (Inr tms5, db5(gid5 \<mapsto> md5\<lparr>players := ps', setupData := None\<rparr>))"
    by (auto simp: CreateTeam_def Let_def split: option.splits sum.splits prod.splits)
qed

theorem C9_CreateTeam_failures_witness:
  "CreateTeam [''r'' \<mapsto> annRoom] ''r'' noBody =
     (Inl (Throw 403 ''Define number of team''), [''r'' \<mapsto> annRoom]) \<and>
   fst (CreateTeam [''r'' \<mapsto> annRoom] ''r'' (noBody\<lparr>numOfTeams := Some 1\<rparr>)) = Inl TypeError \<and>
   fst (CreateTeam [''r'' \<mapsto> threeRoom\<lparr>setupData := None\<rparr>] ''r''
          (noBody\<lparr>numOfTeams := Some 2\<rparr>)) =
     Inr [\<lparr>teamID = ''0'', playersID = [0, 2]\<rparr>, \<lparr>teamID = ''1'', playersID = [1]\<rparr>] \<and>
   snd (CreateTeam [''r'' \<mapsto> threeRoom\<lparr>setupData := None\<rparr>] ''r''
          (noBody\<lparr>numOfTeams := Some 2\<rparr>)) ''r'' =
     Some (threeRoom\<lparr>players := players teamedRoom, setupData := None\<rparr>)"
proof -
  let ?b = "noBody\<lparr>numOfTeams := Some 2\<rparr>"
  let ?tms = "[\<lparr>teamID = ''0'', playersID = [0, 2]\<rparr>, \<lparr>teamID = ''1'', playersID = [1]\<rparr>]"
  have e: "fst (CreateTeam [''r'' \<mapsto> annRoom] ''r'' (noBody\<lparr>numOfTeams := Some 1\<rparr>)) =
      Inl TypeError"
    by (simp add: CreateTeam_def annRoom_def noBody_def openSlot_def player_data_def
        upt_conv_Cons)
  have n: "numOfTeams noBody = None" "numOfTeams (noBody\<lparr>numOfTeams := Some 1\<rparr>) \<noteq> None"
    by (simp_all add: noBody_def)
  have ok: "fst (CreateTeam (Map.empty(''r'' \<mapsto> threeRoom)) ''r'' ?b) = Inr ?tms"
    "snd (CreateTeam (Map.empty(''r'' \<mapsto> threeRoom)) ''r'' ?b) ''r'' = Some teamedRoom"
    using teamedRoom_formed by simp_all
  note inst = C9_CreateTeam_failures [where b = noBody and db = "[''r'' \<mapsto> annRoom]" and gid = "''r''"
        and ?db3.0 = "[''r'' \<mapsto> annRoom]" and ?gid3.0 = "''r''"
        and ?b3.0 = "noBody\<lparr>numOfTeams := Some 1\<rparr>" and ?e3.0 = TypeError
        and ?db4.0 = Map.empty and ?gid4.0 = "''r''" and ?md4.0 = threeRoom and ?b4.0 = ?b
        and ?db5.0 = Map.empty and ?gid5.0 = "''r''" and ?md5.0 = threeRoom and ?b5.0 = ?b
        and ?tms5.0 = ?tms]
  from inst ok(1) obtain ps' where
    p: "map_option players (snd (CreateTeam (Map.empty(''r'' \<mapsto> threeRoom)) ''r'' ?b) ''r'') = Some ps'"
      "CreateTeam (Map.empty(''r'' \<mapsto> threeRoom\<lparr>setupData := None\<rparr>)) ''r'' ?b =
         (Inr ?tms, Map.empty(''r'' \<mapsto> threeRoom\<lparr>players := ps', setupData := None\<rparr>))"
    by blast
  from p(1) ok(2) have "ps' = players teamedRoom" by simp
  with p(2) have
    "fst (CreateTeam [''r'' \<mapsto> threeRoom\<lparr>setupData := None\<rparr>] ''r'' ?b) = Inr ?tms"
    "snd (CreateTeam [''r'' \<mapsto> threeRoom\<lparr>setupData := None\<rparr>] ''r'' ?b) ''r'' =
       Some (threeRoom\<lparr>players := players teamedRoom, setupData := None\<rparr>)"
    by simp_all
  moreover have "CreateTeam [''r'' \<mapsto> annRoom] ''r'' noBody =
     (Inl (Throw 403 ''Define number of team''), [''r'' \<mapsto> annRoom])"
    using inst n(1) by blast
  ultimately show ?thesis
    using e by simp
qed

text \<open>
  Claim C1 (the teams partition exactly the eligible players) does not hold of the code.
  In \<open>adminPairRoom\<close> the eligible slots are 0 and 3 and the admins 1 and 2. With one
  team the fill loop starts at slot 0, steps over admin 1 only, and takes the slot it
  lands on without looking at its flags: the team is slots 0 and 2, so it holds an admin
  and misses the eligible slot 3, while \<open>playersID\<close> records 0 and 3 as the players.
\<close>

theorem C1_CreateTeam_adjacent_admins:
  "fst (CreateTeam [''r'' \<mapsto> adminPairRoom] ''r'' (noBody\<lparr>numOfTeams := Some 1\<rparr>)) =
     Inr [\<lparr>teamID = ''0'', playersID = [0, 2]\<rparr>] \<and>
   map_option setupData
     (snd (CreateTeam [''r'' \<mapsto> adminPairRoom] ''r'' (noBody\<lparr>numOfTeams := Some 1\<rparr>)) ''r'') =
     Some (Some \<lparr>teams = Some [\<lparr>teamID = ''0'', playersID = [0, 2]\<rparr>],
                   adminsID = Some [1, 2], sd_playersID = Some [0, 3],
                   leadersID = Some [0]\<rparr>)"
  by (simp add: CreateTeam_def adminPairRoom_def emptySetup_def mkSlot_def noBody_def player_data_def
      assignSlot_def setLeader_def set_data_def toString.simps Let_def upt_conv_Cons)

subsection \<open>teams/update/leader\<close>

lemma fold_keep:
  "\<forall>k \<in> set ks. \<not> Q k \<Longrightarrow> fold (\<lambda>k acc. if Q k then Some k else acc) ks acc = acc"
  by (induction ks arbitrary: acc) auto

lemma fold_unique:
  "filter Q ks = [l] \<Longrightarrow> fold (\<lambda>k acc. if Q k then Some k else acc) ks acc = Some l"
proof (induction ks arbitrary: acc)
  case Nil
  then show ?case by simp
next
  case (Cons k ks)
  show ?case
  proof (cases "Q k")
    case True
    with Cons.prems have "k = l" and "filter Q ks = []" by simp_all
    then have "\<forall>j \<in> set ks. \<not> Q j" by (simp add: filter_empty_conv)
    then show ?thesis using True \<open>k = l\<close> by (simp add: fold_keep)
  next
    case False
    with Cons show ?thesis by simp
  qed
qed

lemma scanTeam_fold:
  "\<forall>k \<in> set ks. k < length ps \<and> data (ps ! k) \<noteq> None \<Longrightarrow>
   scanTeam ps tid ks oldLeader others =
     Inr (fold (\<lambda>k acc. if teamOf (ps ! k) = Some tid \<and> leads (ps ! k) then Some k else acc)
            ks oldLeader,
          others @ filter (\<lambda>k. teamOf (ps ! k) = Some tid \<and> \<not> leads (ps ! k)) ks)"
proof (induction ks arbitrary: oldLeader others)
  case Nil
  then show ?case by simp
next
  case (Cons k ks)
  from Cons.prems obtain d where d: "k < length ps" "data (ps ! k) = Some d" by auto
  from Cons.prems have rest: "\<forall>k \<in> set ks. k < length ps \<and> data (ps ! k) \<noteq> None" by simp
  show ?case
    using d Cons.IH [OF rest]
    by (cases "teamData d") (simp_all add: player_data_def teamOf_def leads_def)
qed

lemma filter_eq_self:
  "distinct xs \<Longrightarrow> x \<in> set xs \<Longrightarrow> filter (\<lambda>k. k = x) xs = [x]"
  by (induction xs) (auto simp: filter_empty_conv)

lemma setLeader_member:
  assumes "k < length ps" and "teamOf (ps ! k) = Some tid"
  shows "\<exists>ps'. setLeader ps k flag = Inr ps' \<and> length ps' = length ps \<and>
           (\<forall>j < length ps.
              teamOf (ps' ! j) = teamOf (ps ! j) \<and>
              leads (ps' ! j) = (if j = k then flag else leads (ps ! j)) \<and>
              name (ps' ! j) = name (ps ! j))"
proof -
  from assms(2) obtain d td where d: "data (ps ! k) = Some d" "teamData d = Some td"
    by (auto simp: teamOf_def split: option.splits)
  define ps' where
    "ps' = ps[k := (ps ! k)\<lparr>data := Some (d\<lparr>teamData := Some (td\<lparr>td_leader := flag\<rparr>),
                                             leader := Some flag\<rparr>)\<rparr>]"
  have "setLeader ps k flag = Inr ps'"
    using assms(1) d by (simp add: setLeader_def player_data_def set_data_def ps'_def)
  moreover have "length ps' = length ps" by (simp add: ps'_def)
  moreover have "\<forall>j < length ps.
      teamOf (ps' ! j) = teamOf (ps ! j) \<and>
      leads (ps' ! j) = (if j = k then flag else leads (ps ! j)) \<and>
      name (ps' ! j) = name (ps ! j)"
    using d by (simp add: ps'_def nth_list_update teamOf_def leads_def)
  ultimately show ?thesis by blast
qed

lemma replaceFirst_absent: "old \<notin> set arr \<Longrightarrow> replaceFirst old new arr = arr"
  by (induction arr) auto

lemma replaceFirst_present:
  "old \<in> set arr \<Longrightarrow>
   \<exists>i < length arr. arr ! i = old \<and> (\<forall>j < i. arr ! j \<noteq> old) \<and>
      replaceFirst old new arr = arr[i := new]"
proof (induction arr)
  case Nil
  then show ?case by simp
next
  case (Cons x xs)
  show ?case
  proof (cases "x = old")
    case True
    then show ?thesis by (intro exI [of _ 0]) simp
  next
    case False
    with Cons obtain i where i: "i < length xs" "xs ! i = old" "\<forall>j < i. xs ! j \<noteq> old"
      "replaceFirst old new xs = xs[i := new]" by auto
    have "\<forall>j < Suc i. (x # xs) ! j \<noteq> old"
      using False i(3) by (auto simp: nth_Cons split: nat.splits)
    then show ?thesis
      using False i by (intro exI [of _ "Suc i"]) simp
  qed
qed

lemma checkTeam_found:
  assumes "setupData md = Some sd" and "teams sd = Some tms" and "tid \<in> teamID ` set tms"
  shows "checkTeam md tid = Inr ()"
proof -
  from assms(3) have "find (\<lambda>t. teamID t = tid) tms \<noteq> None"
    by (auto simp: find_None_iff)
  then show ?thesis using assms(1,2) by (simp add: checkTeam_def)
qed

lemma scanTeam_room:
  assumes "\<forall>p \<in> set ps. data p \<noteq> None"
  shows "scanTeam ps tid [0..<length ps] None [] =
     Inr (fold (\<lambda>k acc. if teamOf (ps ! k) = Some tid \<and> leads (ps ! k) then Some k else acc)
            [0..<length ps] None,
          filter (\<lambda>k. \<not> leads (ps ! k)) (teamMembers ps tid))"
proof -
  have "\<forall>k \<in> set [0..<length ps]. k < length ps \<and> data (ps ! k) \<noteq> None"
    using assms by simp
  then show ?thesis
    by (simp add: scanTeam_fold teamMembers_def)
qed

lemma UpdateLeader_rotate:
  assumes db: "db gid = Some md" and sd: "setupData md = Some sd"
    and tms: "teams sd = Some tms" and arr: "leadersID sd = Some arr"
    and ex: "tid \<in> teamID ` set tms"
    and dat: "\<forall>p \<in> set (players md). data p \<noteq> None"
    and lead: "teamLeaders (players md) tid = [old]"
    and size: "2 \<le> length (teamMembers (players md) tid)"
    and r: "r < length (teamMembers (players md) tid) - 1"
  shows "\<exists>new resp md' arr'.
           UpdateLeader db gid (Some tid) r = (Inr (Some resp), db(gid \<mapsto> md')) \<and>
           playerID_newLeader resp = new \<and> new_leadersID resp = arr' \<and>
           new \<in> set (teamMembers (players md) tid) \<and> \<not> leads (players md ! new) \<and>
           new \<noteq> old \<and>
           teamLeaders (players md') tid = [new] \<and>
           (\<forall>t. teamMembers (players md') t = teamMembers (players md) t) \<and>
           map_option teams (setupData md') = Some (Some tms) \<and>
           map_option leadersID (setupData md') = Some (Some arr') \<and>
           (old \<in> set arr \<longrightarrow>
              (\<exists>i < length arr. arr ! i = old \<and> (\<forall>j < i. arr ! j \<noteq> old) \<and>
                 arr' = arr[i := new])) \<and>
           (old \<notin> set arr \<longrightarrow> arr' = arr)"
proof -
  define ps where "ps = players md"
  define others where "others = filter (\<lambda>k. \<not> leads (ps ! k)) (teamMembers ps tid)"
  have lead': "filter (\<lambda>k. teamOf (ps ! k) = Some tid \<and> leads (ps ! k)) [0..<length ps] = [old]"
    using lead by (simp add: teamLeaders_def teamMembers_def ps_def)
  have scan: "scanTeam ps tid [0..<length ps] None [] = Inr (Some old, others)"
    using scanTeam_room [of ps tid] dat fold_unique [OF lead']
    by (simp add: ps_def others_def)
  have "length (filter (\<lambda>k. leads (ps ! k)) (teamMembers ps tid)) + length others =
      length (teamMembers ps tid)"
    unfolding others_def by (rule sum_length_filter_compl)
  then have len: "length (teamMembers ps tid) = 1 + length others"
    using lead by (simp add: teamLeaders_def ps_def)
  have rl: "r < length others" and ne: "others \<noteq> []"
    using r size len by (auto simp: ps_def)
  define new where "new = others ! r"
  have "new \<in> set others"
    using rl by (simp add: new_def)
  then have newm: "new \<in> set (teamMembers ps tid)" and newl: "\<not> leads (ps ! new)"
    by (simp_all add: others_def)
  from newm have newP: "new < length ps" "teamOf (ps ! new) = Some tid"
    by (simp_all add: teamMembers_def)
  have "old \<in> set (filter (\<lambda>k. teamOf (ps ! k) = Some tid \<and> leads (ps ! k)) [0..<length ps])"
    by (simp only: lead') simp
  then have oldP: "old < length ps" "teamOf (ps ! old) = Some tid" "leads (ps ! old)"
    by simp_all
  have neq: "new \<noteq> old"
    using newl oldP(3) by auto
  from setLeader_member [OF newP, of True] obtain ps1 where
    ps1: "setLeader ps new True = Inr ps1" "length ps1 = length ps"
      "\<forall>j < length ps. teamOf (ps1 ! j) = teamOf (ps ! j) \<and>
          leads (ps1 ! j) = (if j = new then True else leads (ps ! j)) \<and>
          name (ps1 ! j) = name (ps ! j)"
    by blast
  have old1: "old < length ps1" "teamOf (ps1 ! old) = Some tid"
    using oldP ps1 by simp_all
  from setLeader_member [OF old1, of False] obtain ps2 where
    ps2: "setLeader ps1 old False = Inr ps2" "length ps2 = length ps1"
      "\<forall>j < length ps1. teamOf (ps2 ! j) = teamOf (ps1 ! j) \<and>
          leads (ps2 ! j) = (if j = old then False else leads (ps1 ! j)) \<and>
          name (ps2 ! j) = name (ps1 ! j)"
    by blast
  have l2: "length ps2 = length ps"
    using ps1(2) ps2(2) by simp
  have t2: "\<forall>j < length ps. teamOf (ps2 ! j) = teamOf (ps ! j)"
    using ps1 ps2 by simp
  have L2: "\<forall>j < length ps. leads (ps2 ! j) = (j \<noteq> old \<and> (j = new \<or> leads (ps ! j)))"
    using ps1 ps2 by simp
  have mem: "\<forall>t. teamMembers ps2 t = teamMembers ps t"
    using t2 l2 by (auto simp: teamMembers_def intro: filter_cong)
  have "\<forall>k \<in> set [0..<length ps].
      (teamOf (ps2 ! k) = Some tid \<and> leads (ps2 ! k)) = (k = new)"
  proof
    fix k assume "k \<in> set [0..<length ps]"
    then have k: "k < length ps" by simp
    show "(teamOf (ps2 ! k) = Some tid \<and> leads (ps2 ! k)) = (k = new)"
    proof (cases "k = new")
      case True
      then show ?thesis using t2 L2 newP neq by simp
    next
      case False
      have "\<not> (teamOf (ps ! k) = Some tid \<and> leads (ps ! k) \<and> k \<noteq> old)"
      proof
        assume a: "teamOf (ps ! k) = Some tid \<and> leads (ps ! k) \<and> k \<noteq> old"
        then have "k \<in> set (filter (\<lambda>k. teamOf (ps ! k) = Some tid \<and> leads (ps ! k)) [0..<length ps])"
          using k by simp
        then have "k = old" by (simp only: lead') simp
        with a show False by simp
      qed
      then show ?thesis using False t2 L2 k by auto
    qed
  qed
  then have "filter (\<lambda>k. teamOf (ps2 ! k) = Some tid \<and> leads (ps2 ! k)) [0..<length ps] =
      filter (\<lambda>k. k = new) [0..<length ps]"
    by (intro filter_cong) auto
  also have "\<dots> = [new]"
    using newP(1) by (intro filter_eq_self) simp_all
  finally have lead2: "teamLeaders ps2 tid = [new]"
    by (simp add: teamLeaders_def teamMembers_def l2)
  define arr' where "arr' = replaceFirst old new arr"
  define md' where "md' = md\<lparr>players := ps2, setupData := Some (sd\<lparr>leadersID := Some arr'\<rparr>)\<rparr>"
  define resp where "resp = \<lparr>playerName_newLeader = name (ps2 ! new), playerID_newLeader = new,
      new_leadersID = arr', new_players = ps2\<rparr>"
  have run: "UpdateLeader db gid (Some tid) r = (Inr (Some resp), db(gid \<mapsto> md'))"
    using db sd arr checkTeam_found [OF sd tms ex] scan ne rl ps1(1) ps2(1)
    by (simp add: UpdateLeader_def Let_def ps_def [symmetric] new_def [symmetric]
        arr'_def md'_def resp_def)
  have a1: "old \<in> set arr \<longrightarrow>
      (\<exists>i < length arr. arr ! i = old \<and> (\<forall>j < i. arr ! j \<noteq> old) \<and> arr' = arr[i := new])"
    unfolding arr'_def by (intro impI replaceFirst_present)
  have a2: "old \<notin> set arr \<longrightarrow> arr' = arr"
    unfolding arr'_def by (intro impI replaceFirst_absent)
  have "UpdateLeader db gid (Some tid) r = (Inr (Some resp), db(gid \<mapsto> md')) \<and>
      playerID_newLeader resp = new \<and> new_leadersID resp = arr' \<and>
      new \<in> set (teamMembers (players md) tid) \<and> \<not> leads (players md ! new) \<and>
      new \<noteq> old \<and>
      teamLeaders (players md') tid = [new] \<and>
      (\<forall>t. teamMembers (players md') t = teamMembers (players md) t) \<and>
      map_option teams (setupData md') = Some (Some tms) \<and>
      map_option leadersID (setupData md') = Some (Some arr') \<and>
      (old \<in> set arr \<longrightarrow>
         (\<exists>i < length arr. arr ! i = old \<and> (\<forall>j < i. arr ! j \<noteq> old) \<and>
            arr' = arr[i := new])) \<and>
      (old \<notin> set arr \<longrightarrow> arr' = arr)"
    using run newm newl neq lead2 mem a1 a2 tms
    by (simp add: md'_def resp_def ps_def)
  then show ?thesis by blast
qed

lemma UpdateLeader_nothing_to_rotate:
  assumes db: "db gid = Some md" and sd: "setupData md = Some sd"
    and tms: "teams sd = Some tms" and ex: "tid \<in> teamID ` set tms"
    and dat: "\<forall>p \<in> set (players md). data p \<noteq> None"
    and size: "length (teamMembers (players md) tid) \<le> 1"
    and lead: "teamMembers (players md) tid \<noteq> [] \<longrightarrow> length (teamLeaders (players md) tid) = 1"
  shows "UpdateLeader db gid (Some tid) r = (Inr None, db)"
proof -
  define ps where "ps = players md"
  have others: "filter (\<lambda>k. \<not> leads (ps ! k)) (teamMembers ps tid) = []"
  proof (cases "teamMembers ps tid = []")
    case True
    then show ?thesis by simp
  next
    case False
    have s: "length (filter (\<lambda>k. leads (ps ! k)) (teamMembers ps tid)) +
        length (filter (\<lambda>k. \<not> leads (ps ! k)) (teamMembers ps tid)) = length (teamMembers ps tid)"
      by (rule sum_length_filter_compl)
    have "length (filter (\<lambda>k. leads (ps ! k)) (teamMembers ps tid)) = 1"
      using False lead by (simp add: teamLeaders_def ps_def)
    moreover have "length (teamMembers ps tid) \<le> 1"
      using size by (simp add: ps_def)
    ultimately have "length (filter (\<lambda>k. \<not> leads (ps ! k)) (teamMembers ps tid)) = 0"
      using s by linarith
    then show ?thesis by (simp only: length_0_conv)
  qed
  show ?thesis
    using db checkTeam_found [OF sd tms ex] scanTeam_room [OF dat, of tid] others
    by (simp add: UpdateLeader_def ps_def)
qed

lemma UpdateLeader_unknown_team:
  assumes "db gid = Some md" and "setupData md = Some sd" and "teams sd = Some tms"
    and "tid \<notin> teamID ` set tms"
  shows "UpdateLeader db gid (Some tid) r = (Inl (Throw 404 (''Team '' @ tid @ '' not found'')), db)"
proof -
  from assms(4) have "find (\<lambda>t. teamID t = tid) tms = None"
    by (auto simp: find_None_iff)
  then show ?thesis
    using assms(1-3) by (simp add: UpdateLeader_def checkTeam_def)
qed

text \<open>
  Rotation in a regular room. In a room with recorded teams where every slot carries
  \<open>data\<close> and the team in question has exactly one leader, rotating the leader of a team
  of at least two members, with the random index \<open>r\<close> in range, answers with a new leader
  who was a non-leading member of the team and differs from the old one; afterwards the
  new leader is the only leader of the team, every team has the members it had, the
  recorded teams are unchanged, and in \<open>leadersID\<close> the first occurrence of the old leader
  is replaced by the new one. On a team of at most one member (led by that member, if
  there is one) nothing is stored and no body is set. A team id that is not among the
  recorded teams is answered with 404. The handlers do not keep a room regular: see
  \<open>leaderlessRoom\<close> below.
\<close>

theorem UpdateLeader_regular:
  "(db gid = Some md \<and> setupData md = Some sd \<and> teams sd = Some tms \<and>
      leadersID sd = Some arr \<and> tid \<in> teamID ` set tms \<and>
      (\<forall>p \<in> set (players md). data p \<noteq> None) \<and>
      teamLeaders (players md) tid = [old] \<and>
      2 \<le> length (teamMembers (players md) tid) \<and>
      r < length (teamMembers (players md) tid) - 1 \<longrightarrow>
      (\<exists>new resp md' arr'.
         UpdateLeader db gid (Some tid) r = (Inr (Some resp), db(gid \<mapsto> md')) \<and>
         playerID_newLeader resp = new \<and> new_leadersID resp = arr' \<and>
         new \<in> set (teamMembers (players md) tid) \<and> \<not> leads (players md ! new) \<and>
         new \<noteq> old \<and>
         teamLeaders (players md') tid = [new] \<and>
         (\<forall>t. teamMembers (players md') t = teamMembers (players md) t) \<and>
         map_option teams (setupData md') = Some (Some tms) \<and>
         map_option leadersID (setupData md') = Some (Some arr') \<and>
         (old \<in> set arr \<longrightarrow>
            (\<exists>i < length arr. arr ! i = old \<and> (\<forall>j < i. arr ! j \<noteq> old) \<and>
               arr' = arr[i := new])) \<and>
         (old \<notin> set arr \<longrightarrow> arr' = arr))) \<and>
   (db2 gid2 = Some md2 \<and> setupData md2 = Some sd2 \<and> teams sd2 = Some tms2 \<and>
      tid2 \<in> teamID ` set tms2 \<and>
      (\<forall>p \<in> set (players md2). data p \<noteq> None) \<and>
      length (teamMembers (players md2) tid2) \<le> 1 \<and>
      (teamMembers (players md2) tid2 \<noteq> [] \<longrightarrow> length (teamLeaders (players md2) tid2) = 1) \<longrightarrow>
      UpdateLeader db2 gid2 (Some tid2) r2 = (Inr None, db2)) \<and>
   (db3 gid3 = Some md3 \<and> setupData md3 = Some sd3 \<and> teams sd3 = Some tms3 \<and>
      tid3 \<notin> teamID ` set tms3 \<longrightarrow>
      UpdateLeader db3 gid3 (Some tid3) r3 =
        (Inl (Throw 404 (''Team '' @ tid3 @ '' not found'')), db3))"
  using UpdateLeader_rotate [of db gid md sd tms arr tid old r]
    UpdateLeader_nothing_to_rotate [of db2 gid2 md2 sd2 tms2 tid2 r2]
    UpdateLeader_unknown_team [of db3 gid3 md3 sd3 tms3 tid3 r3]
  by blast

theorem UpdateLeader_regular_instance:
  "(\<exists>resp md'.
      UpdateLeader [''r'' \<mapsto> teamedRoom] ''r'' (Some ''0'') 0 =
        (Inr (Some resp), [''r'' \<mapsto> md']) \<and>
      playerID_newLeader resp = 2 \<and> new_leadersID resp = [2, 1] \<and>
      teamLeaders (players md') ''0'' = [2] \<and>
      teamMembers (players md') ''0'' = [0, 2]) \<and>
   UpdateLeader [''r'' \<mapsto> teamedRoom] ''r'' (Some ''1'') 0 = (Inr None, [''r'' \<mapsto> teamedRoom]) \<and>
   UpdateLeader [''r'' \<mapsto> teamedRoom] ''r'' (Some ''7'') 0 =
     (Inl (Throw 404 ''Team 7 not found''), [''r'' \<mapsto> teamedRoom])"
proof -
  let ?sd = "\<lparr>teams = Some [\<lparr>teamID = ''0'', playersID = [0, 2]\<rparr>,
                             \<lparr>teamID = ''1'', playersID = [1]\<rparr>],
              adminsID = Some [], sd_playersID = Some [0, 1, 2], leadersID = Some [0, 1]\<rparr>"
  let ?tms = "[\<lparr>teamID = ''0'', playersID = [0, 2]\<rparr>, \<lparr>teamID = ''1'', playersID = [1]\<rparr>]"
  have m0: "teamMembers (players teamedRoom) ''0'' = [0, 2]"
    and m1: "teamMembers (players teamedRoom) ''1'' = [1]"
    and l0: "teamLeaders (players teamedRoom) ''0'' = [0]"
    and l1: "teamLeaders (players teamedRoom) ''1'' = [1]"
    by (simp_all add: teamLeaders_def teamMembers_def teamedRoom_def teamOf_def leads_def
        upt_conv_Cons)
  have sd: "setupData teamedRoom = Some ?sd" and dat: "\<forall>p \<in> set (players teamedRoom). data p \<noteq> None"
    by (simp_all add: teamedRoom_def)
  note inst = UpdateLeader_regular [of "[''r'' \<mapsto> teamedRoom]" "''r''" teamedRoom "?sd" "?tms" "[0, 1]" "''0''" 0 0
      "[''r'' \<mapsto> teamedRoom]" "''r''" teamedRoom "?sd" "?tms" "''1''" 0
      "[''r'' \<mapsto> teamedRoom]" "''r''" teamedRoom "?sd" "?tms" "''7''" 0]
  have hyp1: "[''r'' \<mapsto> teamedRoom] ''r'' = Some teamedRoom \<and> setupData teamedRoom = Some ?sd \<and>
      teams ?sd = Some ?tms \<and> leadersID ?sd = Some [0, 1] \<and> ''0'' \<in> teamID ` set ?tms \<and>
      (\<forall>p \<in> set (players teamedRoom). data p \<noteq> None) \<and>
      teamLeaders (players teamedRoom) ''0'' = [0] \<and>
      2 \<le> length (teamMembers (players teamedRoom) ''0'') \<and>
      0 < length (teamMembers (players teamedRoom) ''0'') - 1"
    using sd dat m0 l0 by simp
  have hyp2: "[''r'' \<mapsto> teamedRoom] ''r'' = Some teamedRoom \<and> setupData teamedRoom = Some ?sd \<and>
      teams ?sd = Some ?tms \<and> ''1'' \<in> teamID ` set ?tms \<and>
      (\<forall>p \<in> set (players teamedRoom). data p \<noteq> None) \<and>
      length (teamMembers (players teamedRoom) ''1'') \<le> 1 \<and>
      (teamMembers (players teamedRoom) ''1'' \<noteq> [] \<longrightarrow>
         length (teamLeaders (players teamedRoom) ''1'') = 1)"
    using sd dat m1 l1 by simp
  have hyp3: "[''r'' \<mapsto> teamedRoom] ''r'' = Some teamedRoom \<and> setupData teamedRoom = Some ?sd \<and>
      teams ?sd = Some ?tms \<and> ''7'' \<notin> teamID ` set ?tms"
    using sd by simp
  from inst hyp1 obtain new resp md' arr' where
    rot: "UpdateLeader [''r'' \<mapsto> teamedRoom] ''r'' (Some ''0'') 0 =
        (Inr (Some resp), [''r'' \<mapsto> teamedRoom, ''r'' \<mapsto> md'])"
      "playerID_newLeader resp = new" "new_leadersID resp = arr'"
      "new \<in> set (teamMembers (players teamedRoom) ''0'')" "new \<noteq> 0"
      "teamLeaders (players md') ''0'' = [new]"
      "\<forall>t. teamMembers (players md') t = teamMembers (players teamedRoom) t"
      "(0::nat) \<in> set [0, 1] \<longrightarrow>
         (\<exists>i < length [0, 1::nat]. [0, 1] ! i = (0::nat) \<and> (\<forall>j < i. [0, 1] ! j \<noteq> (0::nat)) \<and>
            arr' = [0, 1][i := new])"
    by blast
  from rot(4,5) have new: "new = 2"
    by (simp add: m0)
  have "(0::nat) \<in> set [0, 1]"
    by simp
  with rot(8) obtain i where i: "i < length [0, 1::nat]" "[0, 1::nat] ! i = 0"
    "arr' = [0, 1][i := new]"
    by blast
  have "i = 0"
  proof (cases i)
    case 0
    then show ?thesis .
  next
    case (Suc j)
    with i(1) have "j = 0" by simp
    with Suc i(2) show ?thesis by simp
  qed
  with i(3) new have arr': "arr' = [2, 1]"
    by simp
  have noop: "UpdateLeader [''r'' \<mapsto> teamedRoom] ''r'' (Some ''1'') 0 =
      (Inr None, [''r'' \<mapsto> teamedRoom])"
    using inst hyp2 by blast
  have nf: "UpdateLeader [''r'' \<mapsto> teamedRoom] ''r'' (Some ''7'') 0 =
      (Inl (Throw 404 (''Team '' @ ''7'' @ '' not found'')), [''r'' \<mapsto> teamedRoom])"
    using inst hyp3 by blast
  have "UpdateLeader [''r'' \<mapsto> teamedRoom] ''r'' (Some ''0'') 0 =
        (Inr (Some resp), [''r'' \<mapsto> md']) \<and>
      playerID_newLeader resp = 2 \<and> new_leadersID resp = [2, 1] \<and>
      teamLeaders (players md') ''0'' = [2] \<and>
      teamMembers (players md') ''0'' = [0, 2]"
    using rot new arr' m0 by simp
  then have "\<exists>resp md'.
      UpdateLeader [''r'' \<mapsto> teamedRoom] ''r'' (Some ''0'') 0 =
        (Inr (Some resp), [''r'' \<mapsto> md']) \<and>
      playerID_newLeader resp = 2 \<and> new_leadersID resp = [2, 1] \<and>
      teamLeaders (players md') ''0'' = [2] \<and>
      teamMembers (players md') ''0'' = [0, 2]"
    by blast
  then show ?thesis
    using noop nf by simp
qed

text \<open>
  Claim C7 (in every room with recorded teams, rotating the leader of a team of at least
  two members produces a leader different from the prior one) does not hold of the code.
  teams/create with one team turns \<open>threeRoom\<close> into \<open>oneTeamRoom\<close>: team 0 is slots 0,
  1 and 2, led by slot 0. The player on slot 0 then sends an update with new \<open>data\<close>,
  which replaces the \<open>data\<close> of the slot and with it the \<open>teamData\<close>: in
  \<open>leaderlessRoom\<close> team 0 is still recorded with its three members, but the slots that
  carry its id are 1 and 2 and neither is flagged as leader. Rotation of team 0 collects
  slots 1 and 2 in \<open>playerID_others\<close> and finds no old leader, so \<open>playerID_oldLeader\<close> is
  still \<open>''\<close> when \<open>metadata.players[playerID_oldLeader].data\<close> is read: the handler
  raises a TypeError whichever of the two the random index picks, and answers with no
  new leader. The replacement in \<open>leadersID\<close> is guarded by \<open>index_old !== -1\<close>; the reset
  of the old leader's flags is not guarded.
\<close>

theorem C7_rotation_without_leader:
  "snd (CreateTeam [''r'' \<mapsto> threeRoom] ''r'' (noBody\<lparr>numOfTeams := Some 1\<rparr>)) ''r'' =
     Some oneTeamRoom \<and>
   fst (updatePlayerMetadata [''r'' \<mapsto> oneTeamRoom] ''r'' resetData) = Inr () \<and>
   snd (updatePlayerMetadata [''r'' \<mapsto> oneTeamRoom] ''r'' resetData) ''r'' = Some leaderlessRoom \<and>
   map_option teams (setupData leaderlessRoom) =
     Some (Some [\<lparr>teamID = ''0'', playersID = [0, 1, 2]\<rparr>]) \<and>
   teamMembers (players leaderlessRoom) ''0'' = [1, 2] \<and>
   teamLeaders (players leaderlessRoom) ''0'' = [] \<and>
   fst (UpdateLeader [''r'' \<mapsto> leaderlessRoom] ''r'' (Some ''0'') 0) = Inl TypeError \<and>
   fst (UpdateLeader [''r'' \<mapsto> leaderlessRoom] ''r'' (Some ''0'') 1) = Inl TypeError"
  by code_simp

section \<open>Regular rooms and the other operations\<close>

subsection \<open>The examples of the specification\<close>

text \<open>
  In a room whose slots are all players, six players in two teams give the sizes 3 and 3,
  and seven players give 4 and 3, the leftover player joining team 0.
\<close>

lemma CreateTeam_six_by_two:
  "fst (CreateTeam [''r'' \<mapsto> plainRoom 6] ''r'' (noBody\<lparr>numOfTeams := Some 2\<rparr>)) =
     Inr [\<lparr>teamID = ''0'', playersID = [0, 1, 2]\<rparr>, \<lparr>teamID = ''1'', playersID = [3, 4, 5]\<rparr>]"
  by code_simp

lemma CreateTeam_seven_by_two:
  "fst (CreateTeam [''r'' \<mapsto> plainRoom 7] ''r'' (noBody\<lparr>numOfTeams := Some 2\<rparr>)) =
     Inr [\<lparr>teamID = ''0'', playersID = [0, 1, 2, 6]\<rparr>, \<lparr>teamID = ''1'', playersID = [3, 4, 5]\<rparr>]"
  by code_simp

subsection \<open>Team formation in a regular room\<close>

text \<open>\<open>toString\<close> is injective, so the teams \<open>0, 1, ...\<close> have different identifiers.\<close>

lemma digitVal_digits: "list_all (\<lambda>d. digitVal (''0123456789'' ! d) = d) [0..<10]"
  by code_simp

lemma digitVal_digit: "d < 10 \<Longrightarrow> digitVal (''0123456789'' ! d) = d"
  using digitVal_digits by (simp add: list_all_iff)

lemma fromDigits_snoc: "fromDigits (s @ [c]) = 10 * fromDigits s + digitVal c"
  by (simp add: fromDigits_def)

lemma fromDigits_toString: "fromDigits (toString n) = n"
proof (induction n rule: toString.induct)
  case (1 n)
  show ?case
  proof (cases "n < 10")
    case True
    then show ?thesis
      by (subst toString.simps) (simp add: fromDigits_def digitVal_digit)
  next
    case False
    then have "fromDigits (toString (n div 10)) = n div 10"
      by (rule "1.IH")
    then show ?thesis
      using False by (subst toString.simps) (simp add: fromDigits_snoc digitVal_digit)
  qed
qed

lemma toString_inj: "toString a = toString b \<Longrightarrow> a = b"
  by (metis fromDigits_toString)

lemma scanRoles_plain:
  "\<forall>k \<in> set ks. k < length ps \<and> plainSlot (ps ! k) \<Longrightarrow>
   scanRoles ps ks pa aa = Inr (pa @ ks, aa)"
  by (induction ks arbitrary: pa aa)
     (auto simp: player_data_def plainSlot_def split: option.splits)

lemma assignSlot_plain:
  assumes "k < length ps" and "\<forall>j < length ps. noAdminSlot (ps ! j)"
  shows "\<exists>ps'. assignSlot ps (Some k) tid = Inr (ps', k) \<and> length ps' = length ps \<and>
           (\<forall>j < length ps. noAdminSlot (ps' ! j)) \<and>
           (\<forall>j < length ps. j \<noteq> k \<longrightarrow> ps' ! j = ps ! j) \<and>
           \<not> leads (ps' ! k) \<and> teamOf (ps' ! k) = Some tid"
proof -
  from assms obtain d where d: "data (ps ! k) = Some d" "\<not> admin d"
    by (auto simp: noAdminSlot_def split: option.splits)
  define ps' where "ps' = ps[k := (ps ! k)\<lparr>data := Some (d\<lparr>teamData := Some \<lparr>td_teamID = tid, td_leader = False\<rparr>,
      leader := Some False\<rparr>)\<rparr>]"
  have "assignSlot ps (Some k) tid = Inr (ps', k)"
    using assms(1) d by (simp add: assignSlot_def player_data_def set_data_def ps'_def)
  moreover have "length ps' = length ps" by (simp add: ps'_def)
  moreover have "\<forall>j < length ps. noAdminSlot (ps' ! j)"
    using assms d by (auto simp: ps'_def nth_list_update noAdminSlot_def)
  moreover have "\<forall>j < length ps. j \<noteq> k \<longrightarrow> ps' ! j = ps ! j"
    by (simp add: ps'_def)
  moreover have "\<not> leads (ps' ! k) \<and> teamOf (ps' ! k) = Some tid"
    using assms(1) by (simp add: ps'_def leads_def teamOf_def)
  ultimately show ?thesis by blast
qed

lemma fillTeam_plain:
  assumes "c + m \<le> length ps" and "\<forall>j < length ps. noAdminSlot (ps ! j)"
  shows "\<exists>ps'. fillTeam m tid ps (Some c) tmp pids =
             Inr (ps', Some (c + m), tmp @ [c..<c + m], pids @ [c..<c + m]) \<and>
           length ps' = length ps \<and>
           (\<forall>j < length ps. noAdminSlot (ps' ! j)) \<and>
           (\<forall>j < length ps. j < c \<or> c + m \<le> j \<longrightarrow> ps' ! j = ps ! j) \<and>
           (\<forall>j. c \<le> j \<and> j < c + m \<longrightarrow> \<not> leads (ps' ! j) \<and> teamOf (ps' ! j) = Some tid)"
  using assms
proof (induction m arbitrary: ps c tmp pids)
  case 0
  then show ?case by auto
next
  case (Suc m)
  from Suc.prems have c: "c < length ps" by simp
  from assignSlot_plain [OF c Suc.prems(2), of tid] obtain ps1 where
    a: "assignSlot ps (Some c) tid = Inr (ps1, c)" "length ps1 = length ps"
      "\<forall>j < length ps. noAdminSlot (ps1 ! j)"
      "\<forall>j < length ps. j \<noteq> c \<longrightarrow> ps1 ! j = ps ! j"
      "\<not> leads (ps1 ! c)" "teamOf (ps1 ! c) = Some tid"
    by blast
  have p1: "Suc c + m \<le> length ps1" "\<forall>j < length ps1. noAdminSlot (ps1 ! j)"
    using Suc.prems(1) a(2,3) by simp_all
  from Suc.IH [OF p1, of "tmp @ [c]" "pids @ [c]"] obtain ps' where
    r: "fillTeam m tid ps1 (Some (Suc c)) (tmp @ [c]) (pids @ [c]) =
          Inr (ps', Some (Suc c + m), (tmp @ [c]) @ [Suc c..<Suc c + m], (pids @ [c]) @ [Suc c..<Suc c + m])"
      "length ps' = length ps1"
      "\<forall>j < length ps1. noAdminSlot (ps' ! j)"
      "\<forall>j < length ps1. j < Suc c \<or> Suc c + m \<le> j \<longrightarrow> ps' ! j = ps1 ! j"
      "\<forall>j. Suc c \<le> j \<and> j < Suc c + m \<longrightarrow> \<not> leads (ps' ! j) \<and> teamOf (ps' ! j) = Some tid"
    by blast
  have u: "[c..<c + Suc m] = c # [Suc c..<Suc c + m]"
    by (simp add: upt_conv_Cons)
  have run: "fillTeam (Suc m) tid ps (Some c) tmp pids =
      Inr (ps', Some (c + Suc m), tmp @ [c..<c + Suc m], pids @ [c..<c + Suc m])"
    using a(1) r(1) unfolding u by (simp del: upt_Suc)
  have same: "\<forall>j < length ps. j < c \<or> c + Suc m \<le> j \<longrightarrow> ps' ! j = ps ! j"
    using a(2,4) r(4) by auto
  have inner: "\<forall>j. c \<le> j \<and> j < c + Suc m \<longrightarrow> \<not> leads (ps' ! j) \<and> teamOf (ps' ! j) = Some tid"
  proof (intro allI impI)
    fix j assume j: "c \<le> j \<and> j < c + Suc m"
    show "\<not> leads (ps' ! j) \<and> teamOf (ps' ! j) = Some tid"
    proof (cases "j = c")
      case True
      then have "ps' ! j = ps1 ! c" using r(4) c a(2) by simp
      then show ?thesis using a(5,6) by simp
    next
      case False
      then show ?thesis using j r(5) by simp
    qed
  qed
  show ?case
    using run r(2,3) a(2) same inner by simp
qed

lemma setLeader_promote:
  assumes "k < length ps" and "teamOf (ps ! k) \<noteq> None"
    and "\<forall>j < length ps. noAdminSlot (ps ! j)"
  shows "\<exists>ps'. setLeader ps k True = Inr ps' \<and> length ps' = length ps \<and>
           (\<forall>j < length ps. noAdminSlot (ps' ! j)) \<and>
           (\<forall>j < length ps. j \<noteq> k \<longrightarrow> ps' ! j = ps ! j) \<and>
           leads (ps' ! k)"
proof -
  from assms(2) obtain d td where d: "data (ps ! k) = Some d" "teamData d = Some td"
    by (auto simp: teamOf_def split: option.splits)
  from assms(1,3) d(1) have na: "\<not> admin d"
    by (auto simp: noAdminSlot_def split: option.splits)
  define ps' where "ps' = ps[k := (ps ! k)\<lparr>data := Some (d\<lparr>teamData := Some (td\<lparr>td_leader := True\<rparr>),
      leader := Some True\<rparr>)\<rparr>]"
  have "setLeader ps k True = Inr ps'"
    using assms(1) d by (simp add: setLeader_def player_data_def set_data_def ps'_def)
  moreover have "length ps' = length ps" by (simp add: ps'_def)
  moreover have "\<forall>j < length ps. noAdminSlot (ps' ! j)"
    using assms(1,3) na by (auto simp: ps'_def nth_list_update noAdminSlot_def)
  moreover have "\<forall>j < length ps. j \<noteq> k \<longrightarrow> ps' ! j = ps ! j"
    by (simp add: ps'_def)
  moreover have "leads (ps' ! k)"
    using assms(1) by (simp add: ps'_def leads_def)
  ultimately show ?thesis by blast
qed

lemma formTeams_plain:
  assumes "0 < base" and "c + n * base \<le> length ps" and "\<forall>j < length ps. noAdminSlot (ps ! j)"
  shows "\<exists>ps'. formTeams n i base ps (Some c) tms ls =
             Inr (ps', Some (c + n * base),
                  tms @ map (\<lambda>j. \<lparr>teamID = toString (i + j),
                                   playersID = [c + j * base..<c + Suc j * base]\<rparr>) [0..<n],
                  ls @ map (\<lambda>j. c + j * base) [0..<n]) \<and>
           length ps' = length ps \<and>
           (\<forall>j < length ps. noAdminSlot (ps' ! j)) \<and>
           (\<forall>j < length ps. j < c \<or> c + n * base \<le> j \<longrightarrow> ps' ! j = ps ! j) \<and>
           (\<forall>j. c \<le> j \<and> j < c + n * base \<longrightarrow> leads (ps' ! j) = ((j - c) mod base = 0))"
  using assms(2,3)
proof (induction n arbitrary: ps c i tms ls)
  case 0
  then show ?case by auto
next
  case (Suc n)
  have cb: "c + base \<le> length ps"
    using Suc.prems(1) by simp
  from fillTeam_plain [OF cb Suc.prems(2), of "toString i" "[]" "[]"] obtain ps1 where
    f: "fillTeam base (toString i) ps (Some c) [] [] =
          Inr (ps1, Some (c + base), [c..<c + base], [c..<c + base])"
      "length ps1 = length ps" "\<forall>j < length ps. noAdminSlot (ps1 ! j)"
      "\<forall>j < length ps. j < c \<or> c + base \<le> j \<longrightarrow> ps1 ! j = ps ! j"
      "\<forall>j. c \<le> j \<and> j < c + base \<longrightarrow> \<not> leads (ps1 ! j) \<and> teamOf (ps1 ! j) = Some (toString i)"
    by auto
  have hd: "[c..<c + base] = c # [Suc c..<c + base]"
    using assms(1) by (simp add: upt_conv_Cons)
  have c1: "c < length ps1" "teamOf (ps1 ! c) \<noteq> None" "\<forall>j < length ps1. noAdminSlot (ps1 ! j)"
    using cb assms(1) f(2,3,5) by auto
  from setLeader_promote [OF c1] obtain ps2 where
    s: "setLeader ps1 c True = Inr ps2" "length ps2 = length ps1"
      "\<forall>j < length ps1. noAdminSlot (ps2 ! j)"
      "\<forall>j < length ps1. j \<noteq> c \<longrightarrow> ps2 ! j = ps1 ! j" "leads (ps2 ! c)"
    by blast
  have p2: "(c + base) + n * base \<le> length ps2" "\<forall>j < length ps2. noAdminSlot (ps2 ! j)"
    using Suc.prems(1) f(2) s(2,3) by simp_all
  from Suc.IH [OF p2, of "Suc i" "tms @ [\<lparr>teamID = toString i, playersID = [c..<c + base]\<rparr>]" "ls @ [c]"]
  obtain ps' where
    r: "formTeams n (Suc i) base ps2 (Some (c + base))
          (tms @ [\<lparr>teamID = toString i, playersID = [c..<c + base]\<rparr>]) (ls @ [c]) =
        Inr (ps', Some ((c + base) + n * base),
             (tms @ [\<lparr>teamID = toString i, playersID = [c..<c + base]\<rparr>]) @
               map (\<lambda>j. \<lparr>teamID = toString (Suc i + j),
                          playersID = [(c + base) + j * base..<(c + base) + Suc j * base]\<rparr>) [0..<n],
             (ls @ [c]) @ map (\<lambda>j. (c + base) + j * base) [0..<n])"
      "length ps' = length ps2" "\<forall>j < length ps2. noAdminSlot (ps' ! j)"
      "\<forall>j < length ps2. j < c + base \<or> (c + base) + n * base \<le> j \<longrightarrow> ps' ! j = ps2 ! j"
      "\<forall>j. c + base \<le> j \<and> j < (c + base) + n * base \<longrightarrow>
          leads (ps' ! j) = ((j - (c + base)) mod base = 0)"
    by blast
  have step: "formTeams (Suc n) i base ps (Some c) tms ls =
      formTeams n (Suc i) base ps2 (Some (c + base))
        (tms @ [\<lparr>teamID = toString i, playersID = [c..<c + base]\<rparr>]) (ls @ [c])"
    using f(1) s(1) by (simp add: hd del: upt_Suc)
  have t: "tms @ map (\<lambda>j. \<lparr>teamID = toString (i + j),
                             playersID = [c + j * base..<c + Suc j * base]\<rparr>) [0..<Suc n] =
      (tms @ [\<lparr>teamID = toString i, playersID = [c..<c + base]\<rparr>]) @
        map (\<lambda>j. \<lparr>teamID = toString (Suc i + j),
                   playersID = [(c + base) + j * base..<(c + base) + Suc j * base]\<rparr>) [0..<n]"
    by (subst map_upt_Suc) (simp add: add.assoc del: upt_Suc)
  have l: "ls @ map (\<lambda>j. c + j * base) [0..<Suc n] =
      (ls @ [c]) @ map (\<lambda>j. (c + base) + j * base) [0..<n]"
    by (subst map_upt_Suc) (simp add: add.assoc del: upt_Suc)
  have run: "formTeams (Suc n) i base ps (Some c) tms ls =
      Inr (ps', Some (c + Suc n * base),
           tms @ map (\<lambda>j. \<lparr>teamID = toString (i + j),
                            playersID = [c + j * base..<c + Suc j * base]\<rparr>) [0..<Suc n],
           ls @ map (\<lambda>j. c + j * base) [0..<Suc n])"
    unfolding step r(1) t l by (simp add: add.assoc)
  have len: "length ps' = length ps"
    using r(2) s(2) f(2) by simp
  have na: "\<forall>j < length ps. noAdminSlot (ps' ! j)"
    using r(3) s(2) f(2) by simp
  have same: "\<forall>j < length ps. j < c \<or> c + Suc n * base \<le> j \<longrightarrow> ps' ! j = ps ! j"
  proof (intro allI impI)
    fix j assume j: "j < length ps" "j < c \<or> c + Suc n * base \<le> j"
    then have "ps' ! j = ps2 ! j" using r(4) s(2) f(2) by auto
    also have "\<dots> = ps1 ! j" using j s(4) f(2) assms(1) by auto
    also have "\<dots> = ps ! j" using j f(4) by auto
    finally show "ps' ! j = ps ! j" .
  qed
  have lead: "\<forall>j. c \<le> j \<and> j < c + Suc n * base \<longrightarrow> leads (ps' ! j) = ((j - c) mod base = 0)"
  proof (intro allI impI)
    fix j assume j: "c \<le> j \<and> j < c + Suc n * base"
    then have jl: "j < length ps" using Suc.prems(1) by simp
    show "leads (ps' ! j) = ((j - c) mod base = 0)"
    proof (cases "j < c + base")
      case True
      then have e: "ps' ! j = ps2 ! j" using r(4) jl s(2) f(2) by simp
      show ?thesis
      proof (cases "j = c")
        case True
        then show ?thesis using e s(5) by simp
      next
        case False
        then have "ps2 ! j = ps1 ! j" using s(4) jl f(2) by simp
        moreover have "\<not> leads (ps1 ! j)" using f(5) j True by simp
        moreover have "(j - c) mod base = j - c" using True j by simp
        moreover have "j - c \<noteq> 0" using False j by simp
        ultimately show ?thesis using e by simp
      qed
    next
      case False
      then have "leads (ps' ! j) = ((j - (c + base)) mod base = 0)"
        using r(5) j by simp
      moreover have "j - c = (j - (c + base)) + base" using False by simp
      then have "(j - c) mod base = (j - (c + base)) mod base" by (simp only: mod_add_self2)
      ultimately show ?thesis by simp
    qed
  qed
  show ?case
    using run len na same lead by blast
qed

lemma addToTeam_nth:
  assumes "j < length tms" and "teamID (tms ! j) = tid" and "\<forall>j' < j. teamID (tms ! j') \<noteq> tid"
  shows "addToTeam tid k tms = Some (tms[j := (tms ! j)\<lparr>playersID := playersID (tms ! j) @ [k]\<rparr>])"
  using assms
proof (induction tms arbitrary: j)
  case Nil
  then show ?case by simp
next
  case (Cons t ts)
  show ?case
  proof (cases j)
    case 0
    with Cons.prems show ?thesis by simp
  next
    case (Suc j')
    with Cons.prems have n: "teamID t \<noteq> tid" by auto
    have "j' < length ts" "teamID (ts ! j') = tid" "\<forall>i < j'. teamID (ts ! i) \<noteq> tid"
      using Cons.prems Suc by auto
    from Cons.IH [OF this] show ?thesis
      using n Suc by simp
  qed
qed

lemma distribute_plain:
  assumes "c + m \<le> length ps" and "\<forall>j < length ps. noAdminSlot (ps ! j)"
    and "i + m \<le> length tms" and "\<forall>j < length tms. teamID (tms ! j) = toString j"
  shows "\<exists>ps' tms'. distribute m i ps (Some c) tms = Inr (ps', Some (c + m), tms') \<and>
           length tms' = length tms \<and>
           (\<forall>j < length tms. teamID (tms' ! j) = toString j \<and>
              playersID (tms' ! j) =
                playersID (tms ! j) @ (if i \<le> j \<and> j < i + m then [c + (j - i)] else [])) \<and>
           length ps' = length ps \<and>
           (\<forall>j < length ps. j < c \<or> c + m \<le> j \<longrightarrow> ps' ! j = ps ! j) \<and>
           (\<forall>j. c \<le> j \<and> j < c + m \<longrightarrow> \<not> leads (ps' ! j))"
  using assms
proof (induction m arbitrary: i c ps tms)
  case 0
  then show ?case by auto
next
  case (Suc m)
  from Suc.prems have c: "c < length ps" and i: "i < length tms" by simp_all
  from assignSlot_plain [OF c Suc.prems(2), of "toString i"] obtain ps1 where
    a: "assignSlot ps (Some c) (toString i) = Inr (ps1, c)" "length ps1 = length ps"
      "\<forall>j < length ps. noAdminSlot (ps1 ! j)"
      "\<forall>j < length ps. j \<noteq> c \<longrightarrow> ps1 ! j = ps ! j"
      "\<not> leads (ps1 ! c)"
    by blast
  define tms1 where "tms1 = tms[i := (tms ! i)\<lparr>playersID := playersID (tms ! i) @ [c]\<rparr>]"
  have "\<forall>j' < i. teamID (tms ! j') \<noteq> toString i"
    using Suc.prems(4) i by (auto dest: toString_inj)
  then have add: "addToTeam (toString i) c tms = Some tms1"
    unfolding tms1_def using i Suc.prems(4) by (intro addToTeam_nth) simp_all
  have q: "Suc c + m \<le> length ps1" "\<forall>j < length ps1. noAdminSlot (ps1 ! j)"
    "Suc i + m \<le> length tms1" "\<forall>j < length tms1. teamID (tms1 ! j) = toString j"
    using Suc.prems a(2,3) by (auto simp: tms1_def nth_list_update)
  from Suc.IH [OF q] obtain ps' tms' where
    r: "distribute m (Suc i) ps1 (Some (Suc c)) tms1 = Inr (ps', Some (Suc c + m), tms')"
      "length tms' = length tms1"
      "\<forall>j < length tms1. teamID (tms' ! j) = toString j \<and>
          playersID (tms' ! j) =
            playersID (tms1 ! j) @ (if Suc i \<le> j \<and> j < Suc i + m then [Suc c + (j - Suc i)] else [])"
      "length ps' = length ps1"
      "\<forall>j < length ps1. j < Suc c \<or> Suc c + m \<le> j \<longrightarrow> ps' ! j = ps1 ! j"
      "\<forall>j. Suc c \<le> j \<and> j < Suc c + m \<longrightarrow> \<not> leads (ps' ! j)"
    by blast
  have run: "distribute (Suc m) i ps (Some c) tms = Inr (ps', Some (c + Suc m), tms')"
    using a(1) add r(1) by simp
  have l1: "length tms1 = length tms" by (simp add: tms1_def)
  have teams: "\<forall>j < length tms. teamID (tms' ! j) = toString j \<and>
      playersID (tms' ! j) =
        playersID (tms ! j) @ (if i \<le> j \<and> j < i + Suc m then [c + (j - i)] else [])"
  proof (intro allI impI)
    fix j assume j: "j < length tms"
    show "teamID (tms' ! j) = toString j \<and>
      playersID (tms' ! j) =
        playersID (tms ! j) @ (if i \<le> j \<and> j < i + Suc m then [c + (j - i)] else [])"
    proof (cases "j = i")
      case True
      then have "playersID (tms1 ! j) = playersID (tms ! j) @ [c]"
        using i by (simp add: tms1_def)
      then show ?thesis using r(3) j l1 True by simp
    next
      case False
      then have "playersID (tms1 ! j) = playersID (tms ! j)"
        by (simp add: tms1_def)
      moreover have "(Suc i \<le> j \<and> j < Suc i + m) = (i \<le> j \<and> j < i + Suc m)"
        using False by auto
      moreover have "Suc i \<le> j \<Longrightarrow> Suc c + (j - Suc i) = c + (j - i)"
        by simp
      ultimately show ?thesis using r(3) j l1 by auto
    qed
  qed
  have same: "\<forall>j < length ps. j < c \<or> c + Suc m \<le> j \<longrightarrow> ps' ! j = ps ! j"
    using r(5) a(2,4) by auto
  have lead: "\<forall>j. c \<le> j \<and> j < c + Suc m \<longrightarrow> \<not> leads (ps' ! j)"
  proof (intro allI impI)
    fix j assume j: "c \<le> j \<and> j < c + Suc m"
    show "\<not> leads (ps' ! j)"
    proof (cases "j = c")
      case True
      then have "ps' ! j = ps1 ! c" using r(5) c a(2) by simp
      then show ?thesis using a(5) by simp
    next
      case False
      then show ?thesis using j r(6) by simp
    qed
  qed
  show ?case
    using run r(2,4) l1 a(2) teams same lead by simp
qed

lemma chunk_leader:
  assumes "0 < base" and "j * base \<le> k" and "k < Suc j * base"
  shows "(k mod base = 0) = (k = j * base)"
proof
  assume z: "k mod base = 0"
  have "k div base = j"
    using assms by (intro div_nat_eqI) (simp_all add: mult.commute)
  then show "k = j * base"
    using z div_mult_mod_eq [of k base] by simp
next
  assume "k = j * base"
  then show "k mod base = 0" by simp
qed

text \<open>
  In a room whose slots all carry \<open>data\<close> flagged player and not admin, with
  \<open>n\<close> slots and \<open>0 < t \<le> n\<close> teams, the cursor of the fill loops meets
  the eligible slots one after the other: team \<open>j\<close> gets the slots
  \<open>j * (n div t), ..., (j + 1) * (n div t) - 1\<close> and, when \<open>j < n mod t\<close>, the slot
  \<open>t * (n div t) + j\<close>; its only leader is its first slot.
\<close>

theorem CreateTeam_plain:
  assumes db: "db gid = Some md" and t: "numOfTeams b = Some t" and t0: "0 < t"
    and tn: "t \<le> length (players md)" and plain: "\<forall>p \<in> set (players md). plainSlot p"
  shows "\<exists>tms md'. CreateTeam db gid b = (Inr tms, db(gid \<mapsto> md')) \<and> length tms = t \<and>
           length (players md') = length (players md) \<and>
           (\<forall>j < t.
              teamID (tms ! j) = toString j \<and>
              playersID (tms ! j) =
                [j * (length (players md) div t)..<Suc j * (length (players md) div t)] @
                (if j < length (players md) mod t
                 then [t * (length (players md) div t) + j] else []) \<and>
              filter (\<lambda>k. leads (players md' ! k)) (playersID (tms ! j)) =
                [j * (length (players md) div t)])"
proof -
  define ps where "ps = players md"
  define n where "n = length ps"
  define base where "base = n div t"
  define rem where "rem = n mod t"
  have pl: "\<forall>j < length ps. plainSlot (ps ! j)"
    using plain by (simp add: ps_def)
  then have na: "\<forall>j < length ps. noAdminSlot (ps ! j)"
    by (auto simp: plainSlot_def noAdminSlot_def split: option.splits)
  have "\<forall>k \<in> set [0..<n]. k < length ps \<and> plainSlot (ps ! k)"
    using pl by (simp add: n_def)
  then have scan: "scanRoles ps [0..<n] [] [] = Inr ([0..<n], [])"
    using scanRoles_plain [of "[0..<n]" ps "[]" "[]"] by simp
  have n0: "0 < n" using t0 tn unfolding n_def ps_def by linarith
  then have first: "(case [0..<n] of [] \<Rightarrow> None | k # x \<Rightarrow> Some k) = Some 0"
    by (simp add: upt_conv_Cons)
  have b0: "0 < base"
    using t0 tn by (simp add: base_def n_def ps_def div_greater_zero_iff)
  have split: "n = t * base + rem"
    by (simp add: base_def rem_def)
  have tb: "0 + t * base \<le> length ps"
    using split by (simp add: n_def)
  from formTeams_plain [OF b0 tb na, of 0 "[]" "[]"] obtain ps1 where
    form: "formTeams t 0 base ps (Some 0) [] [] =
        Inr (ps1, Some (t * base),
             map (\<lambda>j. \<lparr>teamID = toString j, playersID = [j * base..<Suc j * base]\<rparr>) [0..<t],
             map (\<lambda>j. j * base) [0..<t])"
      and l1: "length ps1 = length ps" and na1: "\<forall>j < length ps. noAdminSlot (ps1 ! j)"
      and lead1: "\<forall>j. j < t * base \<longrightarrow> leads (ps1 ! j) = (j mod base = 0)"
    by auto
  define tms1 where
    "tms1 = map (\<lambda>j. \<lparr>teamID = toString j, playersID = [j * base..<Suc j * base]\<rparr>) [0..<t]"
  have rt: "rem < t" using t0 by (simp add: rem_def)
  have d1: "t * base + rem \<le> length ps1" "\<forall>j < length ps1. noAdminSlot (ps1 ! j)"
    "0 + rem \<le> length tms1" "\<forall>j < length tms1. teamID (tms1 ! j) = toString j"
    using split l1 na1 rt by (simp_all add: n_def tms1_def)
  from distribute_plain [OF d1] obtain ps2 tms2 where
    dist: "distribute rem 0 ps1 (Some (t * base)) tms1 = Inr (ps2, Some (t * base + rem), tms2)"
      and lt: "length tms2 = length tms1"
      and teams: "\<forall>j < length tms1. teamID (tms2 ! j) = toString j \<and>
          playersID (tms2 ! j) =
            playersID (tms1 ! j) @ (if 0 \<le> j \<and> j < 0 + rem then [t * base + (j - 0)] else [])"
      and l2: "length ps2 = length ps1"
      and same2: "\<forall>j < length ps1. j < t * base \<or> t * base + rem \<le> j \<longrightarrow> ps2 ! j = ps1 ! j"
      and lead2: "\<forall>j. t * base \<le> j \<and> j < t * base + rem \<longrightarrow> \<not> leads (ps2 ! j)"
    by blast
  define md' where "md' = md\<lparr>players := ps2,
      setupData := (case setupData md of None \<Rightarrow> None
                    | Some sd \<Rightarrow> Some (sd\<lparr>teams := Some tms2, adminsID := Some [],
                                         sd_playersID := Some [0..<n],
                                         leadersID := Some (map (\<lambda>j. j * base) [0..<t])\<rparr>))\<rparr>"
  have run: "CreateTeam db gid b = (Inr tms2, db(gid \<mapsto> md'))"
    using db t t0 scan first form dist [unfolded tms1_def]
    by (simp add: CreateTeam_def Let_def md'_def ps_def [symmetric] n_def [symmetric]
        base_def [symmetric] rem_def [symmetric])
  have len: "length tms2 = t"
    using lt by (simp add: tms1_def)
  have each: "\<forall>j < t.
      teamID (tms2 ! j) = toString j \<and>
      playersID (tms2 ! j) = [j * base..<Suc j * base] @ (if j < rem then [t * base + j] else []) \<and>
      filter (\<lambda>k. leads (ps2 ! k)) (playersID (tms2 ! j)) = [j * base]"
  proof (intro allI impI)
    fix j assume j: "j < t"
    have pj: "playersID (tms2 ! j) = [j * base..<Suc j * base] @ (if j < rem then [t * base + j] else [])"
      using teams j by (simp add: tms1_def)
    have up: "Suc j * base \<le> t * base"
      using j by (intro mult_le_mono1) simp
    have "\<forall>k \<in> set [j * base..<Suc j * base]. leads (ps2 ! k) = (k = j * base)"
    proof
      fix k assume "k \<in> set [j * base..<Suc j * base]"
      then have k: "j * base \<le> k" "k < Suc j * base" by simp_all
      then have kt: "k < t * base" using up by simp
      then have "k < length ps1" using d1(1) by simp
      then have "ps2 ! k = ps1 ! k" using same2 kt by simp
      then have "leads (ps2 ! k) = (k mod base = 0)" using lead1 kt by simp
      then show "leads (ps2 ! k) = (k = j * base)"
        using chunk_leader [OF b0 k] by simp
    qed
    then have "filter (\<lambda>k. leads (ps2 ! k)) [j * base..<Suc j * base] =
        filter (\<lambda>k. k = j * base) [j * base..<Suc j * base]"
      by (intro filter_cong) auto
    also have "\<dots> = [j * base]"
      using b0 by (intro filter_eq_self) simp_all
    finally have chunk: "filter (\<lambda>k. leads (ps2 ! k)) [j * base..<Suc j * base] = [j * base]" .
    have extra: "j < rem \<Longrightarrow> \<not> leads (ps2 ! (t * base + j))"
      using lead2 by simp
    have "filter (\<lambda>k. leads (ps2 ! k)) (playersID (tms2 ! j)) = [j * base]"
      unfolding pj using chunk extra by (simp del: upt_Suc)
    then show "teamID (tms2 ! j) = toString j \<and>
      playersID (tms2 ! j) = [j * base..<Suc j * base] @ (if j < rem then [t * base + j] else []) \<and>
      filter (\<lambda>k. leads (ps2 ! k)) (playersID (tms2 ! j)) = [j * base]"
      using teams j pj by (simp add: tms1_def)
  qed
  have pm: "players md' = ps2"
    by (simp add: md'_def)
  have lp: "length (players md') = length (players md)"
    using pm l1 l2 by (simp add: ps_def)
  have each': "\<forall>j < t.
      teamID (tms2 ! j) = toString j \<and>
      playersID (tms2 ! j) = [j * base..<Suc j * base] @ (if j < rem then [t * base + j] else []) \<and>
      filter (\<lambda>k. leads (players md' ! k)) (playersID (tms2 ! j)) = [j * base]"
    using each unfolding pm .
  show ?thesis
    using run len lp each' [unfolded base_def rem_def n_def ps_def] by blast
qed

text \<open>
  These teams split the slots \<open>0, ..., n - 1\<close>: every slot is in exactly one team, the
  sizes are \<open>n div t\<close> or one more (one more for the teams below \<open>n mod t\<close>), and the
  leader of a team is the first slot assigned to it.
\<close>

lemma balanced_chunks:
  fixes n t :: nat
  defines "base \<equiv> n div t" and "rem \<equiv> n mod t"
  defines "chunk \<equiv> \<lambda>j. [j * base..<Suc j * base] @ (if j < rem then [t * base + j] else [])"
  assumes t0: "0 < t" and tn: "t \<le> n"
  shows "(\<forall>k < n. \<exists>!j. j < t \<and> k \<in> set (chunk j)) \<and>
         (\<forall>j < t. set (chunk j) \<subseteq> {0..<n} \<and> distinct (chunk j) \<and>
            length (chunk j) = base + (if j < rem then 1 else 0) \<and> hd (chunk j) = j * base)"
proof -
  have b0: "0 < base"
    using t0 tn by (simp add: base_def div_greater_zero_iff)
  have split: "n = t * base + rem"
    by (simp add: base_def rem_def)
  have rt: "rem < t"
    using t0 by (simp add: rem_def)
  have mem: "\<And>j k. k \<in> set (chunk j) \<longleftrightarrow>
      (j * base \<le> k \<and> k < Suc j * base) \<or> (j < rem \<and> k = t * base + j)"
    by (auto simp: chunk_def)
  have up: "\<And>j. j < t \<Longrightarrow> Suc j * base \<le> t * base"
    by (intro mult_le_mono1) simp
  have part: "\<forall>k < n. \<exists>!j. j < t \<and> k \<in> set (chunk j)"
  proof (intro allI impI)
    fix k assume kn: "k < n"
    show "\<exists>!j. j < t \<and> k \<in> set (chunk j)"
    proof (cases "k < t * base")
      case True
      have j0: "k div base < t"
        using True b0 by (simp add: less_mult_imp_div_less)
      have lo: "(k div base) * base \<le> k"
        by simp
      have hi: "k < Suc (k div base) * base"
        using b0 dividend_less_div_times [of base k] by simp
      show ?thesis
      proof (rule ex1I [of _ "k div base"])
        show "k div base < t \<and> k \<in> set (chunk (k div base))"
          using j0 lo hi mem by blast
      next
        fix j assume j: "j < t \<and> k \<in> set (chunk j)"
        then have "(j * base \<le> k \<and> k < Suc j * base) \<or> (j < rem \<and> k = t * base + j)"
          using mem by blast
        then have "j * base \<le> k \<and> k < Suc j * base"
          using True by auto
        then have "k div base = j"
          by (intro div_nat_eqI) (simp_all add: mult.commute)
        then show "j = k div base" by simp
      qed
    next
      case False
      define j0 where "j0 = k - t * base"
      have k: "k = t * base + j0" using False by (simp add: j0_def)
      have j0r: "j0 < rem" using kn split k by simp
      show ?thesis
      proof (rule ex1I [of _ j0])
        show "j0 < t \<and> k \<in> set (chunk j0)"
          using j0r rt k mem by auto
      next
        fix j assume j: "j < t \<and> k \<in> set (chunk j)"
        then have c: "(j * base \<le> k \<and> k < Suc j * base) \<or> (j < rem \<and> k = t * base + j)"
          using mem by blast
        have "\<not> k < Suc j * base"
          using False up [of j] j by simp
        with c have "k = t * base + j" by blast
        then show "j = j0" using k by simp
      qed
    qed
  qed
  have each: "\<forall>j < t. set (chunk j) \<subseteq> {0..<n} \<and> distinct (chunk j) \<and>
      length (chunk j) = base + (if j < rem then 1 else 0) \<and> hd (chunk j) = j * base"
  proof (intro allI impI)
    fix j assume j: "j < t"
    have tb: "t * base \<le> n" using split by simp
    have s: "set (chunk j) \<subseteq> {0..<n}"
    proof
      fix k assume "k \<in> set (chunk j)"
      then have "(j * base \<le> k \<and> k < Suc j * base) \<or> (j < rem \<and> k = t * base + j)"
        using mem by blast
      then have "k < n"
        using up [OF j] tb split by auto
      then show "k \<in> {0..<n}" by simp
    qed
    have d: "distinct (chunk j)"
      using up [OF j] by (auto simp: chunk_def)
    have l: "length (chunk j) = base + (if j < rem then 1 else 0)"
      by (simp add: chunk_def)
    have "[j * base..<Suc j * base] = j * base # [Suc (j * base)..<Suc j * base]"
      using b0 by (simp add: upt_conv_Cons)
    then have h: "hd (chunk j) = j * base"
      by (simp add: chunk_def)
    show "set (chunk j) \<subseteq> {0..<n} \<and> distinct (chunk j) \<and>
      length (chunk j) = base + (if j < rem then 1 else 0) \<and> hd (chunk j) = j * base"
      using s d l h by blast
  qed
  show ?thesis using part each by blast
qed

theorem CreateTeam_plain_partition:
  assumes db: "db gid = Some md" and t: "numOfTeams b = Some t" and t0: "0 < t"
    and tn: "t \<le> length (players md)" and plain: "\<forall>p \<in> set (players md). plainSlot p"
  shows "\<exists>tms md'. CreateTeam db gid b = (Inr tms, db(gid \<mapsto> md')) \<and> length tms = t \<and>
           (\<forall>k < length (players md). \<exists>!j. j < t \<and> k \<in> set (playersID (tms ! j))) \<and>
           (\<forall>j < t.
              set (playersID (tms ! j)) \<subseteq> {0..<length (players md)} \<and>
              distinct (playersID (tms ! j)) \<and>
              length (playersID (tms ! j)) =
                length (players md) div t + (if j < length (players md) mod t then 1 else 0) \<and>
              filter (\<lambda>k. leads (players md' ! k)) (playersID (tms ! j)) =
                [hd (playersID (tms ! j))])"
proof -
  define n where "n = length (players md)"
  define chunk where "chunk = (\<lambda>j. [j * (n div t)..<Suc j * (n div t)] @
      (if j < n mod t then [t * (n div t) + j] else []))"
  from CreateTeam_plain [of db gid md b t, OF db t t0 tn plain] obtain tms md' where
    run: "CreateTeam db gid b = (Inr tms, db(gid \<mapsto> md'))" and len: "length tms = t"
    and each: "\<forall>j < t. playersID (tms ! j) = chunk j \<and>
        filter (\<lambda>k. leads (players md' ! k)) (playersID (tms ! j)) = [j * (n div t)]"
    unfolding n_def chunk_def by blast
  have tn': "t \<le> n" using tn by (simp add: n_def)
  from balanced_chunks [OF t0 tn'] have
    part: "\<forall>k < n. \<exists>!j. j < t \<and> k \<in> set (chunk j)"
    and bal: "\<forall>j < t. set (chunk j) \<subseteq> {0..<n} \<and> distinct (chunk j) \<and>
        length (chunk j) = n div t + (if j < n mod t then 1 else 0) \<and> hd (chunk j) = j * (n div t)"
    unfolding chunk_def by blast+
  have mem: "\<And>j k. (j < t \<and> k \<in> set (playersID (tms ! j))) = (j < t \<and> k \<in> set (chunk j))"
    using each by auto
  have part': "\<forall>k < n. \<exists>!j. j < t \<and> k \<in> set (playersID (tms ! j))"
    using part unfolding mem .
  have each': "\<forall>j < t.
      set (playersID (tms ! j)) \<subseteq> {0..<n} \<and> distinct (playersID (tms ! j)) \<and>
      length (playersID (tms ! j)) = n div t + (if j < n mod t then 1 else 0) \<and>
      filter (\<lambda>k. leads (players md' ! k)) (playersID (tms ! j)) = [hd (playersID (tms ! j))]"
  proof (intro allI impI)
    fix j assume j: "j < t"
    have e: "playersID (tms ! j) = chunk j"
      and f: "filter (\<lambda>k. leads (players md' ! k)) (playersID (tms ! j)) = [j * (n div t)]"
      using each j by blast+
    have c: "set (chunk j) \<subseteq> {0..<n}" "distinct (chunk j)"
      "length (chunk j) = n div t + (if j < n mod t then 1 else 0)" "hd (chunk j) = j * (n div t)"
      using bal j by simp_all
    show "set (playersID (tms ! j)) \<subseteq> {0..<n} \<and> distinct (playersID (tms ! j)) \<and>
      length (playersID (tms ! j)) = n div t + (if j < n mod t then 1 else 0) \<and>
      filter (\<lambda>k. leads (players md' ! k)) (playersID (tms ! j)) = [hd (playersID (tms ! j))]"
      using c f unfolding e [symmetric] by simp
  qed
  show ?thesis
    using run len part' each' unfolding n_def by blast
qed

text \<open>Seven players in two teams, as an instance.\<close>

lemma CreateTeam_plain_partition_seven:
  "\<exists>tms md'. CreateTeam [''r'' \<mapsto> plainRoom 7] ''r'' (noBody\<lparr>numOfTeams := Some 2\<rparr>) =
       (Inr tms, [''r'' \<mapsto> md']) \<and> length tms = 2 \<and>
     (\<forall>k < 7. \<exists>!j. j < 2 \<and> k \<in> set (playersID (tms ! j))) \<and>
     length (playersID (tms ! 0)) = 4 \<and> length (playersID (tms ! 1)) = 3 \<and>
     filter (\<lambda>k. leads (players md' ! k)) (playersID (tms ! 0)) = [hd (playersID (tms ! 0))]"
proof -
  have h: "[''r'' \<mapsto> plainRoom 7] ''r'' = Some (plainRoom 7)"
    "numOfTeams (noBody\<lparr>numOfTeams := Some 2\<rparr>) = Some 2" "0 < (2::nat)"
    "2 \<le> length (players (plainRoom 7))" "\<forall>p \<in> set (players (plainRoom 7)). plainSlot p"
    by (auto simp: plainRoom_def noBody_def plainSlot_def mkSlot_def)
  from CreateTeam_plain_partition [of "[''r'' \<mapsto> plainRoom 7]" "''r''" "plainRoom 7"
      "noBody\<lparr>numOfTeams := Some 2\<rparr>" 2, OF h]
  obtain tms md' where r:
    "CreateTeam [''r'' \<mapsto> plainRoom 7] ''r'' (noBody\<lparr>numOfTeams := Some 2\<rparr>) =
       (Inr tms, [''r'' \<mapsto> plainRoom 7, ''r'' \<mapsto> md'])" "length tms = 2"
    "\<forall>k < length (players (plainRoom 7)). \<exists>!j. j < 2 \<and> k \<in> set (playersID (tms ! j))"
    "\<forall>j < 2. set (playersID (tms ! j)) \<subseteq> {0..<length (players (plainRoom 7))} \<and>
        distinct (playersID (tms ! j)) \<and>
        length (playersID (tms ! j)) =
          length (players (plainRoom 7)) div 2 + (if j < length (players (plainRoom 7)) mod 2 then 1 else 0) \<and>
        filter (\<lambda>k. leads (players md' ! k)) (playersID (tms ! j)) = [hd (playersID (tms ! j))]"
    by blast
  have l: "length (players (plainRoom 7)) = 7"
    by (simp add: plainRoom_def)
  have "CreateTeam [''r'' \<mapsto> plainRoom 7] ''r'' (noBody\<lparr>numOfTeams := Some 2\<rparr>) =
       (Inr tms, [''r'' \<mapsto> md']) \<and> length tms = 2 \<and>
     (\<forall>k < 7. \<exists>!j. j < 2 \<and> k \<in> set (playersID (tms ! j))) \<and>
     length (playersID (tms ! 0)) = 4 \<and> length (playersID (tms ! 1)) = 3 \<and>
     filter (\<lambda>k. leads (players md' ! k)) (playersID (tms ! 0)) = [hd (playersID (tms ! 0))]"
    using r unfolding l by simp
  then show ?thesis by blast
qed

subsection \<open>The seated invariant under the operations\<close>

text \<open>
  Team formation and leader rotation write only the \<open>data\<close> of a slot, so names and
  credentials stay as they are.
\<close>

lemma seatedRoom_ident:
  "map name ps' = map name (players md) \<Longrightarrow> map credentials ps' = map credentials (players md) \<Longrightarrow>
   seatedRoom md \<Longrightarrow> seatedRoom (md\<lparr>players := ps', setupData := sd\<rparr>)"
proof -
  assume a: "map name ps' = map name (players md)" "map credentials ps' = map credentials (players md)"
    and s: "seatedRoom md"
  have l: "length ps' = length (players md)"
    using a(1) by (rule map_eq_imp_length_eq)
  have "\<forall>i < length ps'. seatedSlot (ps' ! i)"
  proof (intro allI impI)
    fix i assume i: "i < length ps'"
    have "name (ps' ! i) = name (players md ! i)" "credentials (ps' ! i) = credentials (players md ! i)"
      using a i l by (metis nth_map)+
    moreover have "seatedSlot (players md ! i)"
      using s i l by (simp add: seatedRoom_def list_all_length)
    ultimately show "seatedSlot (ps' ! i)" by (simp add: seatedSlot_def)
  qed
  then show ?thesis by (simp add: seatedRoom_def list_all_length)
qed

lemma set_data_ident:
  "map name (set_data ps k d) = map name ps \<and> map credentials (set_data ps k d) = map credentials ps"
  by (cases "k < length ps") (simp_all add: set_data_def map_update list_update_same_conv list_update_beyond)

lemma assignSlot_ident:
  "assignSlot ps c tid = Inr (ps', k) \<Longrightarrow>
   map name ps' = map name ps \<and> map credentials ps' = map credentials ps"
  by (auto simp: assignSlot_def Let_def set_data_ident split: sum.splits if_splits)

lemma setLeader_ident:
  "setLeader ps k flag = Inr ps' \<Longrightarrow>
   map name ps' = map name ps \<and> map credentials ps' = map credentials ps"
  by (auto simp: setLeader_def set_data_ident split: sum.splits option.splits)

lemma fillTeam_ident:
  "fillTeam n tid ps c tmp pids = Inr (ps', c', tmp', pids') \<Longrightarrow>
   map name ps' = map name ps \<and> map credentials ps' = map credentials ps"
proof (induction n arbitrary: ps c tmp pids)
  case 0
  then show ?case by simp
next
  case (Suc n)
  from Suc.prems obtain ps1 k where a: "assignSlot ps c tid = Inr (ps1, k)"
    and r: "fillTeam n tid ps1 (Some (k + 1)) (tmp @ [k]) (pids @ [k]) = Inr (ps', c', tmp', pids')"
    by (auto split: sum.splits)
  from Suc.IH [OF r] assignSlot_ident [OF a] show ?case by simp
qed

lemma formTeams_ident:
  "formTeams n tID base ps c tms ls = Inr (ps', c', tms', ls') \<Longrightarrow>
   map name ps' = map name ps \<and> map credentials ps' = map credentials ps"
proof (induction n arbitrary: tID ps c tms ls)
  case 0
  then show ?case by simp
next
  case (Suc n)
  from Suc.prems obtain ps1 c1 tmp pids id_leader rest ps2 where
    f: "fillTeam base (toString tID) ps c [] [] = Inr (ps1, c1, tmp, pids)"
    and t: "tmp = id_leader # rest"
    and s: "setLeader ps1 id_leader True = Inr ps2"
    and r: "formTeams n (tID + 1) base ps2 c1 (tms @ [\<lparr>teamID = toString tID, playersID = pids\<rparr>])
              (ls @ [id_leader]) = Inr (ps', c', tms', ls')"
    by (auto split: sum.splits list.splits)
  from Suc.IH [OF r] fillTeam_ident [OF f] setLeader_ident [OF s] show ?case by simp
qed

lemma distribute_ident:
  "distribute n tID ps c tms = Inr (ps', c', tms') \<Longrightarrow>
   map name ps' = map name ps \<and> map credentials ps' = map credentials ps"
proof (induction n arbitrary: tID ps c tms)
  case 0
  then show ?case by simp
next
  case (Suc n)
  from Suc.prems obtain ps1 k tms1 where a: "assignSlot ps c (toString tID) = Inr (ps1, k)"
    and r: "distribute n (tID + 1) ps1 (Some (k + 1)) tms1 = Inr (ps', c', tms')"
    by (auto split: sum.splits option.splits)
  from Suc.IH [OF r] assignSlot_ident [OF a] show ?case by simp
qed

lemma seatedStore_upd: "seatedStore db \<Longrightarrow> seatedRoom md \<Longrightarrow> seatedStore (db(g \<mapsto> md))"
  by (simp add: seatedStore_def)

lemma seatedStore_del: "seatedStore db \<Longrightarrow> seatedStore (db(g := None))"
  by (simp add: seatedStore_def)

lemma seatedRoom_slot:
  "seatedRoom md \<Longrightarrow> seatedSlot p \<Longrightarrow> seatedRoom (md\<lparr>players := (players md)[k := p]\<rparr>)"
  by (auto simp: seatedRoom_def list_all_iff dest!: set_update_subset_insert [THEN subsetD])

lemma seatedRoom_nth: "seatedRoom md \<Longrightarrow> k < length (players md) \<Longrightarrow> seatedSlot (players md ! k)"
  by (simp add: seatedRoom_def list_all_length)

lemma seatedRoom_open:
  "seatedRoom \<lparr>gameName = g, unlisted = ul, players = map openSlot ks, setupData = sd,
     nextRoomID = None\<rparr>"
  by (simp add: seatedRoom_def list_all_iff seatedSlot_def openSlot_def)

lemma seatedRoom_created:
  assumes "CreateGame db game np sd u ul = Inr (u', db')" and "seatedStore db"
  shows "seatedStore db'"
proof -
  from assms(1) obtain g ks where
    "db' = db(u \<mapsto> \<lparr>gameName = g, unlisted = ul, players = map openSlot ks, setupData = sd,
       nextRoomID = None\<rparr>)"
    by (auto simp: CreateGame_def Let_def split: option.splits)
  then show ?thesis
    using assms(2) by (simp add: seatedStore_upd seatedRoom_open)
qed

text \<open>
  Every handler keeps the seated invariant of the store, update under the condition that
  the slot it names is seated.
\<close>

lemma seatedStoreD: "seatedStore db \<Longrightarrow> db g = Some md \<Longrightarrow> seatedRoom md"
  by (simp add: seatedStore_def)

lemma join_seated:
  assumes "seatedStore db"
  shows "seatedStore (snd (join_handler db gid b cred))"
  using assms
  by (auto simp: join_handler_def Let_def truthy_def seatedSlot_def
      split: option.splits if_splits
      intro!: seatedStore_upd seatedRoom_slot dest: seatedStoreD)

lemma leave_seated:
  assumes "seatedStore db"
  shows "seatedStore (snd (leave_handler db gid b))"
  using assms
  by (auto simp: leave_handler_def Let_def seatedSlot_def
      split: option.splits if_splits
      intro!: seatedStore_upd seatedStore_del seatedRoom_slot dest: seatedStoreD)

lemma rejoin_seated:
  assumes "seatedStore db"
  shows "seatedStore (snd (RejoinGame db gid b))"
  using assms
  by (auto simp: RejoinGame_def split: option.splits if_splits
      intro!: seatedStore_upd dest: seatedStoreD)

lemma seatedRoom_nextRoomID: "seatedRoom (md\<lparr>nextRoomID := r\<rparr>) = seatedRoom md"
  by (simp add: seatedRoom_def)

lemma playAgain_seated:
  assumes "seatedStore db"
  shows "seatedStore (snd (playAgain_handler db games gname gid b uuid))"
  using assms
  by (auto simp: playAgain_handler_def Let_def seatedRoom_nextRoomID
      split: option.splits if_splits sum.splits
      intro!: seatedStore_upd dest: seatedStoreD seatedRoom_created)

lemma update_seated:
  assumes "seatedStore db"
    and "\<forall>md pid. db gid = Some md \<and> playerID b = Some pid \<and> pid < length (players md) \<longrightarrow>
           name (players md ! pid) \<noteq> None"
  shows "seatedStore (snd (updatePlayerMetadata db gid b))"
proof (cases "\<exists>md pid. db gid = Some md \<and> playerID b = Some pid \<and> pid < length (players md)")
  case False
  then have "snd (updatePlayerMetadata db gid b) = db"
    by (auto simp: updatePlayerMetadata_def split: option.splits name_field.splits)
  with assms(1) show ?thesis by simp
next
  case True
  then obtain md pid where m: "db gid = Some md" "playerID b = Some pid" "pid < length (players md)"
    by blast
  with assms(2) have n: "name (players md ! pid) \<noteq> None" by blast
  have r: "seatedRoom md" using assms(1) m(1) by (rule seatedStoreD)
  from seatedRoom_nth [OF r m(3)] n have c: "credentials (players md ! pid) \<noteq> None"
    by (simp add: seatedSlot_def)
  show ?thesis
    using assms(1) m n c r
    by (auto simp: updatePlayerMetadata_def Let_def seatedSlot_def
        split: option.splits name_field.splits
        intro!: seatedStore_upd seatedRoom_slot)
qed

lemma CreateTeam_seated:
  assumes "seatedStore db"
  shows "seatedStore (snd (CreateTeam db gid b))"
proof (cases "fst (CreateTeam db gid b)")
  case (Inl e)
  then have "snd (CreateTeam db gid b) = db"
    by (auto simp: CreateTeam_def Let_def split: option.splits sum.splits prod.splits)
  with assms show ?thesis by simp
next
  case (Inr tms)
  then obtain t md pa aa ps1 c1 tms1 ls ps2 c2 tms2 sd' where
    m: "db gid = Some md"
    and f: "formTeams t 0 (length pa div t) (players md)
              (case pa of [] \<Rightarrow> None | k # x \<Rightarrow> Some k) [] [] = Inr (ps1, c1, tms1, ls)"
    and d: "distribute (if t = 0 then 0 else length pa mod t) 0 ps1 c1 tms1 = Inr (ps2, c2, tms2)"
    and r: "snd (CreateTeam db gid b) = db(gid \<mapsto> md\<lparr>players := ps2, setupData := sd'\<rparr>)"
    by (auto simp: CreateTeam_def Let_def split: option.splits sum.splits prod.splits)
  have "map name ps2 = map name (players md) \<and> map credentials ps2 = map credentials (players md)"
    using formTeams_ident [OF f] distribute_ident [OF d] by simp
  then have "seatedRoom (md\<lparr>players := ps2, setupData := sd'\<rparr>)"
    using seatedStoreD [OF assms m] by (intro seatedRoom_ident) simp_all
  then show ?thesis
    using assms r by (simp add: seatedStore_upd)
qed

lemma UpdateLeader_seated:
  assumes "seatedStore db"
  shows "seatedStore (snd (UpdateLeader db gid tid r))"
proof (cases "fst (UpdateLeader db gid tid r)")
  case (Inl e)
  then have "snd (UpdateLeader db gid tid r) = db"
    by (auto simp: UpdateLeader_def Let_def split: option.splits sum.splits prod.splits if_splits)
  with assms show ?thesis by simp
next
  case (Inr res)
  show ?thesis
  proof (cases res)
    case None
    with Inr have "snd (UpdateLeader db gid tid r) = db"
      by (auto simp: UpdateLeader_def Let_def split: option.splits sum.splits prod.splits if_splits)
    with assms show ?thesis by simp
  next
    case (Some resp)
    with Inr obtain md ps1 ps2 new old sd' where m: "db gid = Some md"
      and s1: "setLeader (players md) new True = Inr ps1"
      and s2: "setLeader ps1 old False = Inr ps2"
      and r: "snd (UpdateLeader db gid tid r) = db(gid \<mapsto> md\<lparr>players := ps2, setupData := sd'\<rparr>)"
      by (auto simp: UpdateLeader_def Let_def split: option.splits sum.splits prod.splits if_splits)
    have "map name ps2 = map name (players md) \<and> map credentials ps2 = map credentials (players md)"
      using setLeader_ident [OF s1] setLeader_ident [OF s2] by simp
    then have "seatedRoom (md\<lparr>players := ps2, setupData := sd'\<rparr>)"
      using seatedStoreD [OF assms m] by (intro seatedRoom_ident) simp_all
    then show ?thesis
      using assms r by (simp add: seatedStore_upd)
  qed
qed

end
